theory Spec2Isabelle
  imports Main "HOL-Library.Sublist" "HOL-Library.Multiset"
begin

section \<open>The schema pipeline of .github/scripts\<close>

text \<open>
  A shallow embedding of the generation script (the part of \<^verbatim>\<open>config.js\<close> that follows
  the \<^verbatim>\<open>SCHEMAS\<close> table): change detection, raw upload, declaration generation,
  bundling, and the main loop. The script's own logic is translated function by function.
  What it calls but does not define (git, the file system, \<^verbatim>\<open>JSON.parse\<close>, json2ts, the
  text-generation service, prettier, the schema registry and bundler, the object store) is
  either a field of the world the script runs in or a parameter of the model.
\<close>

subsection \<open>JavaScript strings\<close>

text \<open>
  Strings are lists of characters. \<^verbatim>\<open>s.startsWith(p)\<close>, \<^verbatim>\<open>s.endsWith(p)\<close>,
  \<^verbatim>\<open>s.includes(p)\<close>, \<^verbatim>\<open>s.split(c)\<close> for a one-character separator and
  \<^verbatim>\<open>s.trim()\<close>.
\<close>

fun startsWith :: "string \<Rightarrow> string \<Rightarrow> bool" where
  "startsWith s [] = True"
| "startsWith [] (p # ps) = False"
| "startsWith (c # cs) (p # ps) = (c = p \<and> startsWith cs ps)"

definition endsWith :: "string \<Rightarrow> string \<Rightarrow> bool" where
  "endsWith s p = startsWith (rev s) (rev p)"

fun includes_str :: "string \<Rightarrow> string \<Rightarrow> bool" where
  "includes_str [] p = startsWith [] p"
| "includes_str (c # cs) p = (startsWith (c # cs) p \<or> includes_str cs p)"

fun split_on :: "char \<Rightarrow> string \<Rightarrow> string list" where
  "split_on sep [] = [[]]"
| "split_on sep (c # cs) =
     (if c = sep then [] # split_on sep cs
      else (case split_on sep cs of
              [] \<Rightarrow> [[c]]
            | l # ls \<Rightarrow> (c # l) # ls))"

definition join_with :: "char \<Rightarrow> string list \<Rightarrow> string" where
  "join_with sep xs = (case xs of [] \<Rightarrow> [] | y # ys \<Rightarrow> y @ concat (map (\<lambda>s. sep # s) ys))"

text \<open>
  The white space that \<^verbatim>\<open>trim\<close> and the regular expression class \<^verbatim>\<open>\s\<close> know, among
  the code units below 256: tab, line feed, vertical tab, form feed, carriage return,
  space and no-break space.
\<close>

definition is_space :: "char \<Rightarrow> bool" where
  "is_space c = (c \<in> set [CHR 0x09, CHR 0x0A, CHR 0x0B, CHR 0x0C, CHR 0x0D, CHR 0x20, CHR 0xA0])"

definition trim :: "string \<Rightarrow> string" where
  "trim s = rev (dropWhile is_space (rev (dropWhile is_space s)))"

text \<open>
  \<^verbatim>\<open>s.replace(pattern, replacement)\<close> with a string pattern replaces the first
  occurrence only, and expands \<^verbatim>\<open>$$\<close>, \<^verbatim>\<open>$&\<close>, \<^verbatim>\<open>$`\<close> and \<^verbatim>\<open>$'\<close> in the
  replacement (there are no capture groups, so \<^verbatim>\<open>$1\<close> stays as it is).
\<close>

fun split_first :: "string \<Rightarrow> string \<Rightarrow> (string \<times> string) option" where
  "split_first p [] = (if p = [] then Some ([], []) else None)"
| "split_first p (c # cs) =
     (if startsWith (c # cs) p then Some ([], drop (length p) (c # cs))
      else map_option (\<lambda>(b, a). (c # b, a)) (split_first p cs))"

fun substitution :: "string \<Rightarrow> string \<Rightarrow> string \<Rightarrow> string \<Rightarrow> string" where
  "substitution m b a [] = []"
| "substitution m b a [c] = [c]"
| "substitution m b a (c # d # r) =
     (if c = CHR ''$'' \<and> d = CHR ''$'' then CHR ''$'' # substitution m b a r
      else if c = CHR ''$'' \<and> d = CHR ''&'' then m @ substitution m b a r
      else if c = CHR ''$'' \<and> d = CHR 0x60 then b @ substitution m b a r
      else if c = CHR ''$'' \<and> d = CHR 0x27 then a @ substitution m b a r
      else c # substitution m b a (d # r))"

definition replace_first :: "string \<Rightarrow> string \<Rightarrow> string \<Rightarrow> string" where
  "replace_first s p r =
     (case split_first p s of
        None \<Rightarrow> s
      | Some (b, a) \<Rightarrow> b @ substitution p b a r @ a)"

subsection \<open>Paths (the posix functions of the path module)\<close>

text \<open>
  \<^verbatim>\<open>dirname\<close> skips trailing separators, then the last component, and returns what
  is before the separator it stops at.
\<close>

definition dirname :: "string \<Rightarrow> string" where
  "dirname p =
     (case p of
        [] \<Rightarrow> ''.''
      | c0 # rest \<Rightarrow>
          (case dropWhile (\<lambda>c. c \<noteq> CHR ''/'') (dropWhile (\<lambda>c. c = CHR ''/'') (rev rest)) of
             [] \<Rightarrow> (if c0 = CHR ''/'' then ''/'' else ''.'')
           | s # r3 \<Rightarrow> (if c0 = CHR ''/'' \<and> r3 = [] then ''//'' else c0 # rev r3)))"

text \<open>
  \<^verbatim>\<open>normalize\<close>: the segments are read left to right onto a stack (kept reversed here);
  empty segments and \<^verbatim>\<open>.\<close> are dropped, \<^verbatim>\<open>..\<close> pops a segment when there is one to
  pop and is kept otherwise in a relative path.
\<close>

fun normalizeString :: "bool \<Rightarrow> string list \<Rightarrow> string list \<Rightarrow> string list" where
  "normalizeString allowAboveRoot [] acc = rev acc"
| "normalizeString allowAboveRoot (seg # segs) acc =
     (if seg = [] \<or> seg = ''.'' then normalizeString allowAboveRoot segs acc
      else if seg = ''..'' then
        (case acc of
           [] \<Rightarrow> normalizeString allowAboveRoot segs (if allowAboveRoot then [''..''] else [])
         | seg0 # below \<Rightarrow>
             if seg0 = ''..'' then
               normalizeString allowAboveRoot segs (if allowAboveRoot then ''..'' # acc else acc)
             else normalizeString allowAboveRoot segs below)
      else normalizeString allowAboveRoot segs (seg # acc))"

definition normalize :: "string \<Rightarrow> string" where
  "normalize p =
     (if p = [] then ''.''
      else
        let isAbsolute = (hd p = CHR ''/'');
            trailingSeparator = (last p = CHR ''/'');
            q = join_with CHR ''/'' (normalizeString (\<not> isAbsolute) (split_on CHR ''/'' p) [])
        in if q = [] then (if isAbsolute then ''/'' else if trailingSeparator then ''./'' else ''.'')
           else (if isAbsolute then ''/'' else []) @ q @ (if trailingSeparator then ''/'' else []))"

definition join :: "string list \<Rightarrow> string" where
  "join args =
     (case filter (\<lambda>a. a \<noteq> []) args of
        [] \<Rightarrow> ''.''
      | parts \<Rightarrow> normalize (join_with CHR ''/'' parts))"

subsection \<open>Parsed JSON\<close>

datatype json =
    JNull
  | JBool bool
  | JNum int
  | JStr string
  | JArr "json list"
  | JObj "(string \<times> json) list"

datatype error =
    ExecError
  | FsError string
  | SyntaxError
  | TypeError
  | MissingId string
  | NoResult
  | ServiceError
  | FormatError
  | RegistryError
  | BundleError
  | TransportError

text \<open>
  \<^verbatim>\<open>doc.$id\<close>: a property read throws on \<^verbatim>\<open>null\<close>, gives the member of an object
  (the last one, when the text repeated the key) and \<^verbatim>\<open>undefined\<close> for every other
  value. \<^verbatim>\<open>truthy\<close> is what \<^verbatim>\<open>if (v)\<close> and \<^verbatim>\<open>!v\<close> test.
\<close>

fun get_id :: "json \<Rightarrow> error + json option" where
  "get_id JNull = Inl TypeError"
| "get_id (JObj members) = Inr (map_of (rev members) ''$id'')"
| "get_id (JBool b) = Inr None"
| "get_id (JNum n) = Inr None"
| "get_id (JStr s) = Inr None"
| "get_id (JArr xs) = Inr None"

fun truthy :: "json option \<Rightarrow> bool" where
  "truthy None = False"
| "truthy (Some JNull) = False"
| "truthy (Some (JBool b)) = b"
| "truthy (Some (JNum n)) = (n \<noteq> 0)"
| "truthy (Some (JStr s)) = (s \<noteq> [])"
| "truthy (Some (JArr xs)) = True"
| "truthy (Some (JObj members)) = True"

subsection \<open>The descriptor table\<close>

record r2keys =
  bundled :: string
  types :: string

record schema_config =
  input :: string
  output_path :: string
  promptFile :: string
  r2Keys :: r2keys

definition SCHEMAS :: "schema_config list" where
  "SCHEMAS =
    [\<lparr>input = ''schema/model.json'', output_path = ''types/model.d.ts'',
      promptFile = ''.github/scripts/prompts/model.prompt.txt'',
      r2Keys = \<lparr>bundled = ''schema-bundle/model.bundled.json'', types = ''types/model.d.ts''\<rparr>\<rparr>,
     \<lparr>input = ''schema/content.json'', output_path = ''types/content.d.ts'',
      promptFile = ''.github/scripts/prompts/content.prompt.txt'',
      r2Keys = \<lparr>bundled = ''schema-bundle/content.bundled.json'', types = ''types/content.d.ts''\<rparr>\<rparr>,
     \<lparr>input = ''schema/notification.json'', output_path = ''types/notification.d.ts'',
      promptFile = ''.github/scripts/prompts/notification.prompt.txt'',
      r2Keys = \<lparr>bundled = ''schema-bundle/notification.bundled.json'',
                types = ''types/notification.d.ts''\<rparr>\<rparr>,
     \<lparr>input = ''schema/setting.json'', output_path = ''types/setting.d.ts'',
      promptFile = ''.github/scripts/prompts/setting.prompt.txt'',
      r2Keys = \<lparr>bundled = ''schema-bundle/setting.bundled.json'', types = ''types/setting.d.ts''\<rparr>\<rparr>,
     \<lparr>input = ''schema/webhook.json'', output_path = ''types/webhook.d.ts'',
      promptFile = ''.github/scripts/prompts/webhook.prompt.txt'',
      r2Keys = \<lparr>bundled = ''schema-bundle/webhook.bundled.json'', types = ''types/webhook.d.ts''\<rparr>\<rparr>]"

subsection \<open>The world and the transcript of a run\<close>

text \<open>
  A content block of a text-generation response: its \<^verbatim>\<open>type\<close>, and its \<^verbatim>\<open>text\<close>
  when it has one.
\<close>

record block =
  btype :: string
  btext :: "string option"

record put_object =
  Bucket :: "string option"
  Key :: string
  Body :: string
  ContentType :: string
  CacheControl :: string

text \<open>
  Every console line and every call that leaves the script is recorded, in order. A
  console line is its fixed text and its interpolated arguments. A call to the
  text-generation service is recorded with its answer, a call to \<^verbatim>\<open>registerSchema\<close>
  with its outcome.
\<close>

datatype event =
    Log string "string list"
  | Failed string error
  | Uncaught error
  | GitDiff
  | ReadDir string
  | ReadFile string
  | WriteFile string string
  | Json2ts string string
  | Generate string "error + block list"
  | Format string
  | Register json "error option"
  | Bundle json
  | Put put_object

text \<open>
  The world: the environment variables, what
  \<^verbatim>\<open>git diff --name-only HEAD^ HEAD -- schema/\<close> prints (or its failure), the files and
  the directory listings on disk, and the transcript so far.
\<close>

record world =
  env :: "string \<rightharpoonup> string"
  git_diff :: "error + string"
  files :: "string \<rightharpoonup> string"
  dirs :: "string \<rightharpoonup> string list"
  trace :: "event list"

text \<open>
  The collaborators whose code is elsewhere. Those that keep state or talk to a network
  see the whole world, transcript included, so that their answer may depend on everything
  that happened before; the parser, the serialiser and the formatter are functions of their
  argument. \<^verbatim>\<open>None\<close> from \<^verbatim>\<open>json_parse\<close> is its SyntaxError; \<^verbatim>\<open>Some e\<close> from
  \<^verbatim>\<open>registerSchema\<close> or \<^verbatim>\<open>r2_send\<close> is the exception thrown.
\<close>

record ext =
  json_parse :: "string \<Rightarrow> json option"
  json_stringify :: "json \<Rightarrow> string"
  registerSchema :: "world \<Rightarrow> json \<Rightarrow> error option"
  bundle_id :: "world \<Rightarrow> json \<Rightarrow> error + json"
  json2ts :: "world \<Rightarrow> string \<Rightarrow> string \<Rightarrow> error + string"
  messages_create :: "world \<Rightarrow> string \<Rightarrow> error + block list"
  prettier_format :: "string \<Rightarrow> error + string"
  r2_send :: "world \<Rightarrow> put_object \<Rightarrow> error option"

type_synonym 'a io = "world \<Rightarrow> (error + 'a) \<times> world"

definition emit :: "event \<Rightarrow> world \<Rightarrow> world" where
  "emit e w = w\<lparr>trace := trace w @ [e]\<rparr>"

definition new_events :: "world \<Rightarrow> world \<Rightarrow> event list" where
  "new_events w w' = drop (length (trace w)) (trace w')"

subsection \<open>The file system calls\<close>

definition readFileSync :: "string \<Rightarrow> string io" where
  "readFileSync p w =
     (case files w p of
        None \<Rightarrow> (Inl (FsError p), emit (ReadFile p) w)
      | Some content \<Rightarrow> (Inr content, emit (ReadFile p) w))"

definition readdirSync :: "string \<Rightarrow> (string list) io" where
  "readdirSync d w =
     (case dirs w d of
        None \<Rightarrow> (Inl (FsError d), emit (ReadDir d) w)
      | Some entries \<Rightarrow> (Inr entries, emit (ReadDir d) w))"

text \<open>
  Writing needs the directory to exist; a new file becomes an entry of its directory
  (where in the listing is the operating system's choice; it is put last here).
\<close>

definition writeFileSync :: "string \<Rightarrow> string \<Rightarrow> unit io" where
  "writeFileSync p content w =
     (case dirs w (dirname p) of
        None \<Rightarrow> (Inl (FsError p), emit (WriteFile p content) w)
      | Some entries \<Rightarrow>
          (let name = last (split_on CHR ''/'' p)
           in (Inr (),
               emit (WriteFile p content)
                 (w\<lparr>files := (files w)(p \<mapsto> content),
                    dirs := (dirs w)(dirname p \<mapsto>
                              (if name \<in> set entries then entries else entries @ [name]))\<rparr>))))"

subsection \<open>Change detection\<close>

text \<open>
  The filter of \<^verbatim>\<open>detectChangedSchemas\<close> on the lines that git prints, and the
  descriptors it selects. The two directory scans use the same filter without the test
  for the empty string.
\<close>

definition is_schema_file :: "string \<Rightarrow> bool" where
  "is_schema_file file = (endsWith file ''.json'' \<and> \<not> includes_str file ''bundle'')"

definition changedFiles :: "string \<Rightarrow> string list" where
  "changedFiles out =
     filter (\<lambda>f. f \<noteq> [] \<and> endsWith f ''.json'' \<and> \<not> includes_str f ''bundle'')
       (split_on (CHR 0x0A) (trim out))"

definition changedSchemas :: "string list \<Rightarrow> schema_config list" where
  "changedSchemas fs = filter (\<lambda>schema. input schema \<in> set fs) SCHEMAS"

definition detectChangedSchemas :: "(schema_config list) io" where
  "detectChangedSchemas w =
     (let w1 = emit GitDiff (emit (Log ''Detecting changed schema files...'' []) w)
      in case git_diff w of
           Inl e \<Rightarrow> (Inl e, w1)
         | Inr out \<Rightarrow>
             (let cf = changedFiles out;
                  cs = changedSchemas cf
              in (Inr cs,
                  emit (Log ''Found schema(s) to process:'' (map input cs))
                    (emit (Log ''Changed files:'' cf) w1))))"

subsection \<open>Publishing\<close>

definition CACHE_CONTROL :: string where
  "CACHE_CONTROL = ''public, max-age=3600''"

definition uploadToR2 :: "ext \<Rightarrow> string \<Rightarrow> string \<Rightarrow> string \<Rightarrow> unit io" where
  "uploadToR2 x key content contentType w =
     (let w1 = emit (Log ''  Uploading to R2:'' [key]) w;
          command = \<lparr>Bucket = env w ''R2_BUCKET_NAME'', Key = key, Body = content,
                     ContentType = contentType, CacheControl = CACHE_CONTROL\<rparr>
      in case r2_send x w1 command of
           Some e \<Rightarrow> (Inl e, emit (Put command) w1)
         | None \<Rightarrow> (Inr (), emit (Put command) w1))"

fun upload_files :: "ext \<Rightarrow> string \<Rightarrow> string list \<Rightarrow> unit io" where
  "upload_files x schemaDir [] w = (Inr (), w)"
| "upload_files x schemaDir (file # rest) w =
     (case readFileSync (join [schemaDir, file]) w of
        (Inl e, w1) \<Rightarrow> (Inl e, w1)
      | (Inr content, w1) \<Rightarrow>
          (case uploadToR2 x file content ''application/json'' w1 of
             (Inl e, w2) \<Rightarrow> (Inl e, w2)
           | (Inr u, w2) \<Rightarrow> upload_files x schemaDir rest w2))"

definition uploadRawSchemas :: "ext \<Rightarrow> unit io" where
  "uploadRawSchemas x w =
     (let schemaDir = ''schema''
      in case readdirSync schemaDir (emit (Log ''--- Uploading raw schemas to R2 ---'' []) w) of
           (Inl e, w1) \<Rightarrow> (Inl e, w1)
         | (Inr entries, w1) \<Rightarrow>
             (case upload_files x schemaDir (filter is_schema_file entries) w1 of
                (Inl e, w2) \<Rightarrow> (Inl e, w2)
              | (Inr u, w2) \<Rightarrow> (Inr (), emit (Log ''  Uploaded raw schema files'' []) w2)))"

subsection \<open>Bundling\<close>

text \<open>
  \<^verbatim>\<open>register_file\<close> is the body of the loop of \<^verbatim>\<open>registerAllSchemas\<close>: whatever is
  thrown inside its \<^verbatim>\<open>try\<close> is dropped, so it returns a world and no error.
\<close>

definition register_file :: "ext \<Rightarrow> string \<Rightarrow> world \<Rightarrow> world" where
  "register_file x filePath w =
     (case readFileSync filePath w of
        (Inl e, w1) \<Rightarrow> w1
      | (Inr content, w1) \<Rightarrow>
          (case json_parse x content of
             None \<Rightarrow> w1
           | Some schema \<Rightarrow>
               (case get_id schema of
                  Inl e \<Rightarrow> w1
                | Inr schemaId \<Rightarrow>
                    if truthy schemaId
                    then emit (Register schema (registerSchema x w1 schema)) w1
                    else w1)))"

fun register_files :: "ext \<Rightarrow> string \<Rightarrow> string list \<Rightarrow> world \<Rightarrow> world" where
  "register_files x schemaDir [] w = w"
| "register_files x schemaDir (file # rest) w =
     register_files x schemaDir rest (register_file x (join [schemaDir, file]) w)"

definition registerAllSchemas :: "ext \<Rightarrow> string \<Rightarrow> unit io" where
  "registerAllSchemas x schemaPath w =
     (let schemaDir = dirname schemaPath
      in case readdirSync schemaDir w of
           (Inl e, w1) \<Rightarrow> (Inl e, w1)
         | (Inr entries, w1) \<Rightarrow>
             (Inr (), register_files x schemaDir (filter is_schema_file entries) w1))"

definition bundleSchema :: "ext \<Rightarrow> string \<Rightarrow> string io" where
  "bundleSchema x schemaPath w =
     (case registerAllSchemas x schemaPath w of
        (Inl e, w1) \<Rightarrow> (Inl e, w1)
      | (Inr u, w1) \<Rightarrow>
          (case readFileSync schemaPath w1 of
             (Inl e, w2) \<Rightarrow> (Inl e, w2)
           | (Inr content, w2) \<Rightarrow>
               (case json_parse x content of
                  None \<Rightarrow> (Inl SyntaxError, w2)
                | Some mainSchema \<Rightarrow>
                    (case get_id mainSchema of
                       Inl e \<Rightarrow> (Inl e, w2)
                     | Inr None \<Rightarrow> (Inl (MissingId schemaPath), w2)
                     | Inr (Some schemaId) \<Rightarrow>
                         if \<not> truthy (Some schemaId) then (Inl (MissingId schemaPath), w2)
                         else (case bundle_id x w2 schemaId of
                                 Inl e \<Rightarrow> (Inl e, emit (Bundle schemaId) w2)
                               | Inr bundled_doc \<Rightarrow>
                                   (Inr (json_stringify x bundled_doc),
                                    emit (Bundle schemaId) w2))))))"

subsection \<open>Declaration generation\<close>

text \<open>
  The regular expression \<^verbatim>\<open><result>([\s\S]*?)<\/result>\<close>, as a backtracking matcher
  runs it: \<^verbatim>\<open>lazy_until\<close> is the lazy star followed by the closing tag (the shortest
  run of any characters after which the closing tag stands), \<^verbatim>\<open>match_at\<close> the whole
  expression at one start position, \<^verbatim>\<open>match_result\<close> the search for the leftmost
  start position that matches; its value is the capture group.
\<close>

fun lazy_until :: "string \<Rightarrow> string \<Rightarrow> string option" where
  "lazy_until closing [] = (if startsWith [] closing then Some [] else None)"
| "lazy_until closing (c # cs) =
     (if startsWith (c # cs) closing then Some []
      else map_option ((#) c) (lazy_until closing cs))"

definition match_at :: "string \<Rightarrow> string option" where
  "match_at s =
     (if startsWith s ''<result>''
      then lazy_until ''</result>'' (drop (length ''<result>'') s)
      else None)"

fun match_result :: "string \<Rightarrow> string option" where
  "match_result [] = match_at []"
| "match_result (c # cs) =
     (case match_at (c # cs) of
        Some cap \<Rightarrow> Some cap
      | None \<Rightarrow> match_result cs)"

text \<open>
  \<^verbatim>\<open>msg.content.find((block) => block.type === "text")?.text || ""\<close>
\<close>

definition response_text :: "block list \<Rightarrow> string" where
  "response_text content =
     (case find (\<lambda>b. btype b = ''text'') content of
        None \<Rightarrow> []
      | Some b \<Rightarrow> (case btext b of None \<Rightarrow> [] | Some t \<Rightarrow> t))"

definition generateTypes :: "ext \<Rightarrow> schema_config \<Rightarrow> string io" where
  "generateTypes x config w =
     (let w1 = emit (Log ''  Converting to TypeScript...'' []) w;
          schemaDir = dirname (input config);
          schemaFileName = last (split_on CHR ''/'' (input config));
          w2 = emit (Json2ts schemaDir schemaFileName) w1
      in case json2ts x w1 schemaDir schemaFileName of
           Inl e \<Rightarrow> (Inl e, w2)
         | Inr typescriptContent \<Rightarrow>
             (case readFileSync (promptFile config)
                     (emit (Log ''  Sending to Claude for cleanup...'' []) w2) of
                (Inl e, w3) \<Rightarrow> (Inl e, w3)
              | (Inr promptTemplate, w3) \<Rightarrow>
                  (let prompt = replace_first promptTemplate ''<d.ts></d.ts>''
                         (''<d.ts>'' @ [CHR 0x0A] @ typescriptContent @ [CHR 0x0A] @ ''</d.ts>'');
                       reply = messages_create x w3 prompt;
                       w4 = emit (Generate prompt reply) w3
                   in case reply of
                        Inl e \<Rightarrow> (Inl e, w4)
                      | Inr content \<Rightarrow>
                          (case match_result (response_text content) of
                             None \<Rightarrow>
                               (Inl NoResult,
                                emit (Log ''No <result> tag found in Claude's response'' []) w4)
                           | Some cap \<Rightarrow>
                               (case prettier_format x (trim cap) of
                                  Inl e \<Rightarrow> (Inl e, emit (Format (trim cap)) w4)
                                | Inr processedContent \<Rightarrow>
                                    (Inr processedContent, emit (Format (trim cap)) w4))))))"

subsection \<open>One schema, and the whole run\<close>

definition processSchema :: "ext \<Rightarrow> schema_config \<Rightarrow> unit io" where
  "processSchema x config w =
     (case generateTypes x config (emit (Log ''--- Processing'' [input config]) w) of
        (Inl e, w1) \<Rightarrow> (Inl e, w1)
      | (Inr typesContent, w1) \<Rightarrow>
          (case writeFileSync (output_path config) typesContent w1 of
             (Inl e, w2) \<Rightarrow> (Inl e, w2)
           | (Inr u, w2) \<Rightarrow>
               (case bundleSchema x (input config)
                       (emit (Log ''  Bundling schema...'' [])
                          (emit (Log ''  Written types to'' [output_path config]) w2)) of
                  (Inl e, w3) \<Rightarrow> (Inl e, w3)
                | (Inr bundledSchema, w3) \<Rightarrow>
                    (case uploadToR2 x (bundled (r2Keys config)) bundledSchema
                            ''application/json'' w3 of
                       (Inl e, w4) \<Rightarrow> (Inl e, w4)
                     | (Inr u', w4) \<Rightarrow>
                         (Inr (), emit (Log ''  Uploaded bundled schema'' []) w4)))))"

text \<open>
  \<^verbatim>\<open>validateEnv\<close>: a variable that is unset or empty is missing; the first one found
  ends the process with code 1.
\<close>

definition required :: "string list" where
  "required = [''ANTHROPIC_API_KEY'', ''R2_ACCOUNT_ID'', ''R2_ACCESS_KEY_ID'',
               ''R2_SECRET_ACCESS_KEY'', ''R2_BUCKET_NAME'']"

fun validate_each :: "string list \<Rightarrow> world \<Rightarrow> nat option \<times> world" where
  "validate_each [] w = (None, w)"
| "validate_each (envVar # rest) w =
     (if env w envVar = None \<or> env w envVar = Some []
      then (Some 1, emit (Log ''Error: Missing required environment variable:'' [envVar]) w)
      else validate_each rest w)"

definition validateEnv :: "world \<Rightarrow> nat option \<times> world" where
  "validateEnv w = validate_each required w"

text \<open>
  The loop of \<^verbatim>\<open>main\<close>. A failure of \<^verbatim>\<open>processSchema\<close> is caught, printed with
  the descriptor's input path, and ends the process: the loop returns the exit code then,
  and \<^verbatim>\<open>None\<close> when it ran to its end.
\<close>

fun process_each :: "ext \<Rightarrow> schema_config list \<Rightarrow> world \<Rightarrow> nat option \<times> world" where
  "process_each x [] w = (None, w)"
| "process_each x (schema # rest) w =
     (case processSchema x schema w of
        (Inl e, w1) \<Rightarrow> (Some 1, emit (Failed (input schema) e) w1)
      | (Inr u, w1) \<Rightarrow> process_each x rest w1)"

text \<open>
  \<^verbatim>\<open>main\<close> returns the exit code of the process and the world it leaves. What is thrown
  outside the loop's \<^verbatim>\<open>try\<close> rejects the promise of \<^verbatim>\<open>main\<close>, which nothing handles:
  the runtime prints it and exits with code 1.
\<close>

definition main :: "ext \<Rightarrow> world \<Rightarrow> nat \<times> world" where
  "main x w =
     (case validateEnv w of
        (Some code, w1) \<Rightarrow> (code, w1)
      | (None, w1) \<Rightarrow>
          (case detectChangedSchemas w1 of
             (Inl e, w2) \<Rightarrow> (1, emit (Uncaught e) w2)
           | (Inr changed, w2) \<Rightarrow>
               if length changed = 0
               then (0, emit (Log ''No schema changes detected. Nothing to process.'' []) w2)
               else (case uploadRawSchemas x w2 of
                       (Inl e, w3) \<Rightarrow> (1, emit (Uncaught e) w3)
                     | (Inr u, w3) \<Rightarrow>
                         (case process_each x changed w3 of
                            (Some code, w4) \<Rightarrow> (code, w4)
                          | (None, w4) \<Rightarrow>
                              (0, emit (Log ''  Types will be uploaded to R2 by sync-types workflow'' [])
                                    (emit (Log ''  Types will be committed by the workflow'' [])
                                       (emit (Log ''All changed schemas processed successfully'' [])
                                          w4)))))))"

subsection \<open>Reading a transcript\<close>

text \<open>
  The requests put to the object store, the documents handed to \<^verbatim>\<open>registerSchema\<close>,
  and the events that are (or may become) a call over the network: the text-generation
  call, the bundler's resolution of an identifier, the put.
\<close>

fun puts_of :: "event list \<Rightarrow> put_object list" where
  "puts_of [] = []"
| "puts_of (Put c # es) = c # puts_of es"
| "puts_of (e # es) = puts_of es"


fun network_call :: "event \<Rightarrow> bool" where
  "network_call (Generate p r) = True"
| "network_call (Bundle i) = True"
| "network_call (Put c) = True"
| "network_call e = False"

fun generation_event :: "event \<Rightarrow> bool" where
  "generation_event (Log m args) = True"
| "generation_event (Json2ts d f) = True"
| "generation_event (ReadFile p) = True"
| "generation_event (Generate p r) = True"
| "generation_event (Format s) = True"
| "generation_event e = False"

fun bundling_event :: "event \<Rightarrow> bool" where
  "bundling_event (ReadDir d) = True"
| "bundling_event (ReadFile p) = True"
| "bundling_event (Register doc r) = True"
| "bundling_event (Bundle i) = True"
| "bundling_event e = False"

fun registration_event :: "event \<Rightarrow> bool" where
  "registration_event (ReadDir d) = True"
| "registration_event (ReadFile p) = True"
| "registration_event (Register doc r) = True"
| "registration_event e = False"

fun upload_event :: "event \<Rightarrow> bool" where
  "upload_event (Log m args) = True"
| "upload_event (ReadDir d) = True"
| "upload_event (ReadFile p) = True"
| "upload_event (Put c) = True"
| "upload_event e = False"

text \<open>
  \<^verbatim>\<open>extends_by P w w'\<close>: the transcript of \<^verbatim>\<open>w'\<close> is that of \<^verbatim>\<open>w\<close> followed by
  events that all satisfy \<^verbatim>\<open>P\<close>. \<^verbatim>\<open>same_disk\<close>: nothing but the transcript differs.
\<close>

definition extends_by :: "(event \<Rightarrow> bool) \<Rightarrow> world \<Rightarrow> world \<Rightarrow> bool" where
  "extends_by P w w' = (\<exists>es. trace w' = trace w @ es \<and> list_all P es)"

definition same_disk :: "world \<Rightarrow> world \<Rightarrow> bool" where
  "same_disk w w' =
     (files w' = files w \<and> dirs w' = dirs w \<and> env w' = env w \<and> git_diff w' = git_diff w)"


subsection \<open>A small world to run the script in\<close>

text \<open>
  One governed schema on disk beside an unparsable sibling, a bundled artifact and a file
  of another kind; stubs for the collaborators. The parser stub knows three texts. The
  service stub answers every request with the given blocks.
\<close>

definition model_text :: string where
  "model_text =
     ''{'' @ [CHR 0x22] @ ''$id'' @ [CHR 0x22] @ '':'' @ [CHR 0x22] @ ''urn:model'' @ [CHR 0x22] @ ''}''"

definition demo_parse :: "string \<Rightarrow> json option" where
  "demo_parse s =
     (if s = model_text then Some (JObj [(''$id'', JStr ''urn:model'')])
      else if s = ''{}'' then Some (JObj [])
      else if s = ''null'' then Some JNull
      else None)"

definition demo_ext :: "block list \<Rightarrow> ext" where
  "demo_ext reply =
     \<lparr>json_parse = demo_parse,
      json_stringify = (\<lambda>doc. ''{}''),
      registerSchema = (\<lambda>w doc. None),
      bundle_id = (\<lambda>w i. Inr (JObj [])),
      json2ts = (\<lambda>w d f. Inr ''export interface Model {}''),
      messages_create = (\<lambda>w p. Inr reply),
      prettier_format = (\<lambda>s. Inr (s @ [CHR 0x0A])),
      r2_send = (\<lambda>w c. None)\<rparr>"

definition all_set :: "string \<rightharpoonup> string" where
  "all_set v = (if v \<in> set required then Some ''secret'' else None)"

definition demo_world :: "(string \<rightharpoonup> string) \<Rightarrow> error + string \<Rightarrow> string \<Rightarrow> world" where
  "demo_world vars diff model =
     \<lparr>env = vars,
      git_diff = diff,
      files = [''schema/model.json'' \<mapsto> model,
               ''schema/broken.json'' \<mapsto> ''{'',
               ''.github/scripts/prompts/model.prompt.txt'' \<mapsto> ''Clean up: <d.ts></d.ts>''],
      dirs = [''schema'' \<mapsto> [''model.json'', ''broken.json'', ''model.bundled.json'', ''README.md''],
              ''types'' \<mapsto> []],
      trace = []\<rparr>"

definition model_config :: schema_config where
  "model_config =
     \<lparr>input = ''schema/model.json'', output_path = ''types/model.d.ts'',
      promptFile = ''.github/scripts/prompts/model.prompt.txt'',
      r2Keys = \<lparr>bundled = ''schema-bundle/model.bundled.json'', types = ''types/model.d.ts''\<rparr>\<rparr>"

definition model_delta :: string where
  "model_delta = ''schema/model.json'' @ [CHR 0x0A] @ ''schema/model.bundled.json'' @ [CHR 0x0A]"

definition text_block :: "string \<Rightarrow> block" where
  "text_block t = \<lparr>btype = ''text'', btext = Some t\<rparr>"

definition thinking_block :: block where
  "thinking_block = \<lparr>btype = ''thinking'', btext = None\<rparr>"

definition demo_prompt :: string where
  "demo_prompt = ''Clean up: <d.ts>'' @ [CHR 0x0A] @ ''export interface Model {}'' @ [CHR 0x0A] @ ''</d.ts>''"

definition demo_reply :: "block list" where
  "demo_reply =
     [thinking_block,
      text_block ''Here it is: <result> export interface Model {} </result> or <result>x</result>'',
      text_block ''<result>y</result>'']"










section \<open>Properties\<close>

subsection \<open>Strings and the transcript\<close>

lemma startsWith_prefix: "startsWith s p = prefix p s"
  by (induction s p rule: startsWith.induct) auto

lemma endsWith_suffix: "endsWith s p = suffix p s"
  by (simp add: endsWith_def startsWith_prefix suffix_to_prefix)

lemma includes_sublist: "includes_str s p = sublist p s"
  by (induction s) (auto simp: startsWith_prefix sublist_Cons_right)

lemma trace_emit [simp]: "trace (emit e w) = trace w @ [e]"
  and files_emit [simp]: "files (emit e w) = files w"
  and dirs_emit [simp]: "dirs (emit e w) = dirs w"
  and env_emit [simp]: "env (emit e w) = env w"
  and git_diff_emit [simp]: "git_diff (emit e w) = git_diff w"
  by (simp_all add: emit_def)

lemma validate_each_pass: "fst (validate_each vs w) = None \<Longrightarrow> validate_each vs w = (None, w)"
  by (induction vs) (auto split: if_splits)

lemma validateEnv_pass: "fst (validateEnv w) = None \<Longrightarrow> validateEnv w = (None, w)"
  by (simp add: validateEnv_def validate_each_pass)

lemma validate_each_fail:
  "v \<in> set vs \<Longrightarrow> env w v = None \<or> env w v = Some [] \<Longrightarrow>
   \<exists>u \<in> set vs. validate_each vs w =
     (Some 1, emit (Log ''Error: Missing required environment variable:'' [u]) w)"
  by (induction vs) auto

lemma new_events_append: "trace w' = trace w @ es \<Longrightarrow> new_events w w' = es"
  by (simp add: new_events_def)

lemma extends_by_refl [simp]: "extends_by P w w"
  by (simp add: extends_by_def)

lemma extends_by_emit: "extends_by P w w' \<Longrightarrow> P e \<Longrightarrow> extends_by P w (emit e w')"
  by (auto simp: extends_by_def)

lemma extends_by_trans: "extends_by P w w' \<Longrightarrow> extends_by P w' w'' \<Longrightarrow> extends_by P w w''"
  by (auto simp: extends_by_def)

lemma extends_by_mono: "extends_by P w w' \<Longrightarrow> (\<And>e. P e \<Longrightarrow> Q e) \<Longrightarrow> extends_by Q w w'"
  by (auto simp: extends_by_def list_all_iff)

lemma extends_by_new: "extends_by P w w' \<Longrightarrow> list_all P (new_events w w')"
  by (auto simp: extends_by_def new_events_def)

lemma new_events_trans:
  "extends_by P w w' \<Longrightarrow> extends_by Q w' w'' \<Longrightarrow> new_events w w'' = new_events w w' @ new_events w' w''"
  by (auto simp: extends_by_def new_events_def)

lemma same_disk_refl [simp]: "same_disk w w"
  by (simp add: same_disk_def)

lemma same_disk_emit [simp]: "same_disk w (emit e w') = same_disk w w'"
  by (simp add: same_disk_def)

lemma same_disk_emit_left [simp]: "same_disk (emit e w) w' = same_disk w w'"
  by (simp add: same_disk_def)

lemma same_disk_trans: "same_disk w w' \<Longrightarrow> same_disk w' w'' \<Longrightarrow> same_disk w w''"
  by (simp add: same_disk_def)

lemma readFileSync_snd [simp]: "snd (readFileSync p w) = emit (ReadFile p) w"
  by (simp add: readFileSync_def split: option.splits)

lemma readFileSync_fst: "fst (readFileSync p w) = (case files w p of None \<Rightarrow> Inl (FsError p) | Some c \<Rightarrow> Inr c)"
  by (simp add: readFileSync_def split: option.splits)

lemma readdirSync_snd [simp]: "snd (readdirSync d w) = emit (ReadDir d) w"
  by (simp add: readdirSync_def split: option.splits)

lemma readdirSync_fst: "fst (readdirSync d w) = (case dirs w d of None \<Rightarrow> Inl (FsError d) | Some c \<Rightarrow> Inr c)"
  by (simp add: readdirSync_def split: option.splits)

lemma uploadToR2_snd:
  "snd (uploadToR2 x key content ct w) =
     emit (Put \<lparr>Bucket = env w ''R2_BUCKET_NAME'', Key = key, Body = content,
                     ContentType = ct, CacheControl = CACHE_CONTROL\<rparr>) (emit (Log ''  Uploading to R2:'' [key]) w)"
  by (simp add: uploadToR2_def Let_def split: option.splits)

lemma register_file_ext: "extends_by registration_event w (register_file x p w) \<and> same_disk w (register_file x p w)"
  by (auto simp: register_file_def readFileSync_def extends_by_def split: option.splits sum.splits)

lemma register_files_ext: "extends_by registration_event w (register_files x d fs w) \<and> same_disk w (register_files x d fs w)"
proof (induction fs arbitrary: w)
  case Nil
  then show ?case by simp
next
  case (Cons f fs)
  show ?case
    using register_file_ext[of w x "join [d, f]"] Cons[of "register_file x (join [d, f]) w"]
    by (auto intro: extends_by_trans same_disk_trans)
qed

lemma registerAllSchemas_ext:
  "extends_by registration_event w (snd (registerAllSchemas x p w)) \<and> same_disk w (snd (registerAllSchemas x p w))"
proof (cases "dirs w (dirname p)")
  case None
  then show ?thesis by (simp add: registerAllSchemas_def readdirSync_def extends_by_def Let_def)
next
  case (Some entries)
  have "extends_by registration_event w (emit (ReadDir (dirname p)) w)"
    by (simp add: extends_by_emit)
  with Some register_files_ext[of "emit (ReadDir (dirname p)) w" x "dirname p" "filter is_schema_file entries"]
  show ?thesis
    by (auto simp: registerAllSchemas_def readdirSync_def Let_def intro: extends_by_trans same_disk_trans)
qed

lemma bundleSchema_ext:
  "extends_by bundling_event w (snd (bundleSchema x p w)) \<and> same_disk w (snd (bundleSchema x p w))"
proof -
  obtain r w1 where r: "registerAllSchemas x p w = (r, w1)" by (cases "registerAllSchemas x p w")
  with registerAllSchemas_ext[of w x p] have 1: "extends_by registration_event w w1" "same_disk w w1" by auto
  from 1(1) have 2: "extends_by bundling_event w w1"
    by (rule extends_by_mono) (case_tac e, auto)
  have "extends_by bundling_event w1 (snd (bundleSchema x p w)) \<and> same_disk w1 (snd (bundleSchema x p w))"
    using r by (auto simp: bundleSchema_def readFileSync_def extends_by_def split: sum.splits option.splits)
  with 1 2 show ?thesis by (auto intro: extends_by_trans same_disk_trans)
qed


lemma generateTypes_ext:
  "extends_by generation_event w (snd (generateTypes x c w)) \<and> same_disk w (snd (generateTypes x c w))"
  by (auto simp: generateTypes_def readFileSync_def extends_by_def Let_def split: sum.splits option.splits)

lemma generateTypes_reply:
  assumes "Generate p r \<in> set (new_events w (snd (generateTypes x c w)))"
  shows "case r of Inl e \<Rightarrow> fst (generateTypes x c w) = Inl e
         | Inr content \<Rightarrow>
            (case match_result (response_text content) of
               None \<Rightarrow> fst (generateTypes x c w) = Inl NoResult
             | Some cap \<Rightarrow> fst (generateTypes x c w) = prettier_format x (trim cap)
                  \<and> last (new_events w (snd (generateTypes x c w))) = Format (trim cap))"
  using assms
  by (auto simp: generateTypes_def readFileSync_def new_events_def Let_def split: sum.splits option.splits)

lemma writeFileSync_trace: "trace (snd (writeFileSync p c w)) = trace w @ [WriteFile p c]"
  by (simp add: writeFileSync_def Let_def split: option.splits)

lemma uploadToR2_ext: "extends_by upload_event w (snd (uploadToR2 x k c t w)) \<and> same_disk w (snd (uploadToR2 x k c t w))"
  by (simp add: uploadToR2_snd extends_by_def)

lemma upload_files_ext: "extends_by upload_event w (snd (upload_files x d fs w)) \<and> same_disk w (snd (upload_files x d fs w))"
proof (induction fs arbitrary: w)
  case Nil
  then show ?case by simp
next
  case (Cons f fs)
  let ?w1 = "emit (ReadFile (join [d, f])) w"
  have a: "extends_by upload_event w ?w1" "same_disk w ?w1" by (simp_all add: extends_by_emit)
  show ?case
  proof (cases "files w (join [d, f])")
    case None
    then show ?thesis using a by (simp add: readFileSync_def)
  next
    case (Some content)
    obtain r w2 where up: "uploadToR2 x f content ''application/json'' ?w1 = (r, w2)"
      by (cases "uploadToR2 x f content ''application/json'' ?w1")
    have b: "extends_by upload_event w w2" "same_disk w w2"
      using a uploadToR2_ext[of ?w1 x f content "''application/json''"] up
      by (auto intro: extends_by_trans same_disk_trans)
    show ?thesis
    proof (cases r)
      case (Inl e)
      then show ?thesis using Some up b by (simp add: readFileSync_def)
    next
      case (Inr u)
      then show ?thesis using Some up b Cons[of w2]
        by (auto simp: readFileSync_def intro: extends_by_trans same_disk_trans)
    qed
  qed
qed


lemma processSchema_after_generate:
  assumes g: "generateTypes x c (emit (Log ''--- Processing'' [input c]) w) = (Inr t, w1)"
  shows "\<exists>es. trace (snd (processSchema x c w)) = trace w1 @ WriteFile (output_path c) t # es
            \<and> list_all (\<lambda>e. bundling_event e \<or> upload_event e) es"
proof -
  obtain r w2 where wr: "writeFileSync (output_path c) t w1 = (r, w2)"
    by (cases "writeFileSync (output_path c) t w1")
  have tr: "trace w2 = trace w1 @ [WriteFile (output_path c) t]"
    using writeFileSync_trace[of "output_path c" t w1] wr by simp
  show ?thesis
  proof (cases r)
    case (Inl e)
    then show ?thesis using g wr tr by (simp add: processSchema_def)
  next
    case (Inr u)
    let ?w2' = "emit (Log ''  Bundling schema...'' [])
                  (emit (Log ''  Written types to'' [output_path c]) w2)"
    obtain b w3 where bs: "bundleSchema x (input c) ?w2' = (b, w3)"
      by (cases "bundleSchema x (input c) ?w2'")
    from bundleSchema_ext[of ?w2' x "input c"] bs
    obtain es3 where es3: "trace w3 = trace ?w2' @ es3" "list_all bundling_event es3"
      by (auto simp: extends_by_def)
    show ?thesis
    proof (cases b)
      case (Inl e)
      then show ?thesis using g wr Inr bs tr es3
        by (auto simp: processSchema_def list_all_iff)
    next
      case bok: (Inr bundledSchema)
      obtain r4 w4 where up: "uploadToR2 x (bundled (r2Keys c)) bundledSchema ''application/json'' w3 = (r4, w4)"
        by (cases "uploadToR2 x (bundled (r2Keys c)) bundledSchema ''application/json'' w3")
      from uploadToR2_snd[of x "bundled (r2Keys c)" bundledSchema "''application/json''" w3] up
      have tr4: "trace w4 = trace w3 @ [Log ''  Uploading to R2:'' [bundled (r2Keys c)],
                   Put \<lparr>Bucket = env w3 ''R2_BUCKET_NAME'', Key = bundled (r2Keys c), Body = bundledSchema,
                     ContentType = ''application/json'', CacheControl = CACHE_CONTROL\<rparr>]"
        by simp
      show ?thesis using g wr Inr bs bok up tr es3 tr4
        by (cases r4) (auto simp: processSchema_def list_all_iff)
    qed
  qed
qed

lemma detectChangedSchemas_ext:
  "extends_by (\<lambda>e. \<not> network_call e) w (snd (detectChangedSchemas w)) \<and> same_disk w (snd (detectChangedSchemas w))"
  by (auto simp: detectChangedSchemas_def Let_def extends_by_def split: sum.splits)

lemma uploadRawSchemas_ext:
  "extends_by upload_event w (snd (uploadRawSchemas x w)) \<and> same_disk w (snd (uploadRawSchemas x w))"
proof -
  let ?w0 = "emit (Log ''--- Uploading raw schemas to R2 ---'' []) w"
  let ?w1 = "emit (ReadDir ''schema'') ?w0"
  have a: "extends_by upload_event w ?w1" "same_disk w ?w1" by (simp_all add: extends_by_def)
  show ?thesis
  proof (cases "dirs w ''schema''")
    case None
    then show ?thesis using a by (simp add: uploadRawSchemas_def readdirSync_def Let_def)
  next
    case (Some entries)
    obtain r w2 where up: "upload_files x ''schema'' (filter is_schema_file entries) ?w1 = (r, w2)"
      by (cases "upload_files x ''schema'' (filter is_schema_file entries) ?w1")
    from upload_files_ext[of ?w1 x "''schema''" "filter is_schema_file entries"] up a
    have b: "extends_by upload_event w w2" "same_disk w w2"
      by (auto intro: extends_by_trans same_disk_trans)
    then have "extends_by upload_event w (emit (Log ''  Uploaded raw schema files'' []) w2)"
      by (simp add: extends_by_emit)
    then show ?thesis using Some up b
      by (cases r) (simp_all add: uploadRawSchemas_def readdirSync_def Let_def)
  qed
qed

lemma process_each_append:
  "fst (process_each x pre w0) = None \<Longrightarrow>
   process_each x (pre @ ys) w0 = process_each x ys (snd (process_each x pre w0))"
proof (induction pre arbitrary: w0)
  case Nil
  then show ?case by simp
next
  case (Cons s pre)
  then show ?case by (auto split: prod.splits sum.splits)
qed

lemma puts_of_append: "puts_of (xs @ ys) = puts_of xs @ puts_of ys"
  by (induction xs rule: puts_of.induct) auto

lemma upload_files_puts:
  "fst (upload_files x d fs w) = Inr () \<Longrightarrow>
   puts_of (new_events w (snd (upload_files x d fs w))) =
     map (\<lambda>file. \<lparr>Bucket = env w ''R2_BUCKET_NAME'', Key = file,
                    Body = the (files w (join [d, file])),
                    ContentType = ''application/json'', CacheControl = CACHE_CONTROL\<rparr>) fs
   \<and> (\<forall>file \<in> set fs. files w (join [d, file]) \<noteq> None)"
proof (induction fs arbitrary: w)
  case Nil
  then show ?case by (simp add: new_events_def)
next
  case (Cons f fs)
  from Cons.prems obtain content where c: "files w (join [d, f]) = Some content"
    by (cases "files w (join [d, f])") (auto simp: readFileSync_def)
  let ?w1 = "emit (ReadFile (join [d, f])) w"
  obtain r w2 where up: "uploadToR2 x f content ''application/json'' ?w1 = (r, w2)"
    by (cases "uploadToR2 x f content ''application/json'' ?w1")
  from Cons.prems c up have r: "r = Inr ()" and rest: "fst (upload_files x d fs w2) = Inr ()"
    by (auto simp: readFileSync_def split: sum.splits)
  from uploadToR2_snd[of x f content "''application/json''" ?w1] up
  have w2: "w2 = emit (Put \<lparr>Bucket = env w ''R2_BUCKET_NAME'', Key = f, Body = content,
                     ContentType = ''application/json'', CacheControl = CACHE_CONTROL\<rparr>)
                 (emit (Log ''  Uploading to R2:'' [f]) ?w1)"
    by simp
  have e1: "extends_by (\<lambda>e. True) w w2" by (simp add: w2 extends_by_def)
  have e2: "extends_by upload_event w2 (snd (upload_files x d fs w2))"
    using upload_files_ext[of w2 x d fs] by simp
  have ne: "new_events w (snd (upload_files x d fs w2)) =
              new_events w w2 @ new_events w2 (snd (upload_files x d fs w2))"
    using new_events_trans[OF e1 e2] .
  have same: "files w2 = files w" "env w2 = env w" by (simp_all add: w2)
  have whole: "upload_files x d (f # fs) w = upload_files x d fs w2"
    using c up r by (simp add: readFileSync_def)
  have p1: "puts_of (new_events w w2) =
      [\<lparr>Bucket = env w ''R2_BUCKET_NAME'', Key = f, Body = content,
         ContentType = ''application/json'', CacheControl = CACHE_CONTROL\<rparr>]"
    by (simp add: w2 new_events_def)
  have "puts_of (new_events w (snd (upload_files x d fs w2))) =
     map (\<lambda>file. \<lparr>Bucket = env w ''R2_BUCKET_NAME'', Key = file,
                    Body = the (files w (join [d, file])),
                    ContentType = ''application/json'', CacheControl = CACHE_CONTROL\<rparr>) (f # fs)
   \<and> (\<forall>file \<in> set (f # fs). files w (join [d, file]) \<noteq> None)"
    using Cons.IH[OF rest] c by (simp add: ne puts_of_append p1 same)
  then show ?case unfolding whole .
qed

lemma uploadRawSchemas_puts:
  assumes l: "dirs w ''schema'' = Some entries" and ok: "fst (uploadRawSchemas x w) = Inr ()"
  shows "puts_of (new_events w (snd (uploadRawSchemas x w))) =
     map (\<lambda>file. \<lparr>Bucket = env w ''R2_BUCKET_NAME'', Key = file,
                    Body = the (files w (join [''schema'', file])),
                    ContentType = ''application/json'', CacheControl = CACHE_CONTROL\<rparr>)
       (filter is_schema_file entries)
   \<and> (\<forall>file \<in> set (filter is_schema_file entries). files w (join [''schema'', file]) \<noteq> None)"
proof -
  let ?w1 = "emit (ReadDir ''schema'') (emit (Log ''--- Uploading raw schemas to R2 ---'' []) w)"
  let ?fs = "filter is_schema_file entries"
  obtain r w2 where up: "upload_files x ''schema'' ?fs ?w1 = (r, w2)"
    by (cases "upload_files x ''schema'' ?fs ?w1")
  from ok l up have r: "fst (upload_files x ''schema'' ?fs ?w1) = Inr ()"
    by (cases r) (auto simp: uploadRawSchemas_def readdirSync_def Let_def)
  have whole: "snd (uploadRawSchemas x w) = emit (Log ''  Uploaded raw schema files'' []) w2"
    using l up r by (cases r) (auto simp: uploadRawSchemas_def readdirSync_def Let_def)
  have e1: "extends_by (\<lambda>e. True) w ?w1" by (simp add: extends_by_def)
  have e2: "extends_by upload_event ?w1 w2" using upload_files_ext[of ?w1 x "''schema''" ?fs] up by simp
  have ne: "new_events w w2 = new_events w ?w1 @ new_events ?w1 w2"
    using new_events_trans[OF e1 e2] .
  from e1 e2 have "extends_by (\<lambda>e. True) w w2"
    by (auto simp: extends_by_def list_all_iff)
  then have ne2: "new_events w (emit (Log ''  Uploaded raw schema files'' []) w2) =
     new_events w w2 @ [Log ''  Uploaded raw schema files'' []]"
    by (auto simp: extends_by_def new_events_def)
  have p1: "puts_of (new_events w ?w1) = []" by (simp add: new_events_def)
  from upload_files_puts[OF r] up show ?thesis
    by (simp add: whole ne2 ne puts_of_append p1)
qed

lemma processSchema_prefix: "prefix (trace w) (trace (snd (processSchema x c w)))"
proof -
  let ?w0 = "emit (Log ''--- Processing'' [input c]) w"
  obtain g w1 where g: "generateTypes x c ?w0 = (g, w1)" by (cases "generateTypes x c ?w0")
  from generateTypes_ext[of ?w0 x c] g have "extends_by generation_event ?w0 w1" by simp
  then have p1: "prefix (trace w) (trace w1)" by (auto simp: extends_by_def prefix_def)
  show ?thesis
  proof (cases g)
    case (Inl e)
    then show ?thesis using g p1 by (simp add: processSchema_def)
  next
    case (Inr t)
    with g processSchema_after_generate[of x c w t w1]
    have "prefix (trace w1) (trace (snd (processSchema x c w)))" by (auto simp: prefix_def)
    with p1 show ?thesis by (rule prefix_order.trans)
  qed
qed

lemma process_each_prefix: "prefix (trace w) (trace (snd (process_each x cs w)))"
proof (induction cs arbitrary: w)
  case Nil
  then show ?case by simp
next
  case (Cons c cs)
  obtain r w1 where ps: "processSchema x c w = (r, w1)" by (cases "processSchema x c w")
  with processSchema_prefix[of w x c] have p1: "prefix (trace w) (trace w1)" by simp
  show ?case
  proof (cases r)
    case (Inl e)
    then show ?thesis using ps p1 by (auto simp: prefix_def)
  next
    case (Inr u)
    then show ?thesis using ps p1 Cons[of w1] by (auto intro: prefix_order.trans)
  qed
qed

lemma processSchema_after_write:
  assumes g: "generateTypes x c (emit (Log ''--- Processing'' [input c]) w) = (Inr t, w1)"
      and d: "dirs w1 (dirname (output_path c)) = Some entries"
  shows "files (snd (processSchema x c w)) = (files w1)(output_path c \<mapsto> t)
       \<and> (\<exists>es. trace (snd (processSchema x c w)) =
              trace w1 @ [WriteFile (output_path c) t, Log ''  Written types to'' [output_path c],
                          Log ''  Bundling schema...'' []] @ es)"
proof -
  obtain w2 where wr: "writeFileSync (output_path c) t w1 = (Inr (), w2)"
    and f2: "files w2 = (files w1)(output_path c \<mapsto> t)"
    and tr: "trace w2 = trace w1 @ [WriteFile (output_path c) t]"
    using d by (simp add: writeFileSync_def Let_def)
  let ?w2' = "emit (Log ''  Bundling schema...'' [])
                (emit (Log ''  Written types to'' [output_path c]) w2)"
  obtain b w3 where bs: "bundleSchema x (input c) ?w2' = (b, w3)"
    by (cases "bundleSchema x (input c) ?w2'")
  from bundleSchema_ext[of ?w2' x "input c"] bs
  obtain es3 where es3: "trace w3 = trace ?w2' @ es3" and f3: "files w3 = files w2"
    by (auto simp: extends_by_def same_disk_def)
  show ?thesis
  proof (cases b)
    case (Inl e)
    then show ?thesis using g wr bs tr es3 f2 f3 by (simp add: processSchema_def)
  next
    case (Inr bundledSchema)
    obtain r4 w4 where up: "uploadToR2 x (bundled (r2Keys c)) bundledSchema ''application/json'' w3 = (r4, w4)"
      by (cases "uploadToR2 x (bundled (r2Keys c)) bundledSchema ''application/json'' w3")
    from uploadToR2_snd[of x "bundled (r2Keys c)" bundledSchema "''application/json''" w3] up
    have w4: "\<exists>es4. trace w4 = trace w3 @ es4" "files w4 = files w3"
      by auto
    show ?thesis using g wr bs Inr up tr es3 f2 f3 w4
      by (cases r4) (auto simp: processSchema_def)
  qed
qed

subsection \<open>The search for the result span\<close>

lemma prefix_cut:
  assumes "prefix p (xs @ p @ z)" and "xs \<noteq> []" and "p \<noteq> []"
  shows "prefix p (xs @ butlast p)"
proof -
  have split: "xs @ p @ z = (xs @ butlast p) @ (last p # z)"
    using append_butlast_last_id[OF assms(3)] by (metis append.assoc append_Cons append_Nil)
  have len: "length p \<le> length (xs @ butlast p)"
    using assms(2,3) by (cases xs) auto
  from assms(1) split obtain r where "(xs @ butlast p) @ (last p # z) = p @ r"
    by (auto simp: prefix_def)
  then have "take (length p) ((xs @ butlast p) @ (last p # z)) = p" by simp
  then have "take (length p) (xs @ butlast p) = p" using len by simp
  then show ?thesis by (metis take_is_prefix)
qed

lemma lazy_until_first:
  assumes "cl \<noteq> []" and "\<not> sublist cl (cap @ butlast cl)"
  shows "lazy_until cl (cap @ cl @ z) = Some cap"
  using assms(2)
proof (induction cap)
  case Nil
  obtain c cs where "cl @ z = c # cs" using assms(1) by (cases cl) auto
  moreover have "startsWith (cl @ z) cl" by (simp add: startsWith_prefix)
  ultimately show ?case by simp
next
  case (Cons c cap)
  have "\<not> startsWith (c # cap @ cl @ z) cl"
  proof
    assume "startsWith (c # cap @ cl @ z) cl"
    then have "prefix cl ((c # cap) @ cl @ z)" by (simp add: startsWith_prefix)
    then have "prefix cl ((c # cap) @ butlast cl)" using assms(1) by (intro prefix_cut) auto
    then have "sublist cl ((c # cap) @ butlast cl)" by (rule prefix_imp_sublist)
    with Cons.prems show False by simp
  qed
  moreover have "\<not> sublist cl (cap @ butlast cl)"
    using Cons.prems by (auto simp: sublist_Cons_right)
  ultimately show ?case using Cons.IH by simp
qed

lemma match_result_first_gen:
  assumes op: "op = ''<result>''"
      and m: "match_at (op @ rest) = Some cap" and n: "\<not> sublist op (a @ butlast op)"
  shows "match_result (a @ op @ rest) = Some cap"
  using n
proof (induction a)
  case Nil
  obtain c cs where "op @ rest = c # cs" using op by (cases op) auto
  then show ?case using m by simp
next
  case (Cons c a)
  have ne: "op \<noteq> []" using op by simp
  have "\<not> startsWith (c # a @ op @ rest) op"
  proof
    assume "startsWith (c # a @ op @ rest) op"
    then have "prefix op ((c # a) @ op @ rest)" by (simp add: startsWith_prefix)
    then have "prefix op ((c # a) @ butlast op)" using ne by (intro prefix_cut) auto
    then have "sublist op ((c # a) @ butlast op)" by (rule prefix_imp_sublist)
    with Cons.prems show False by simp
  qed
  moreover have "match_at s = (if startsWith s op then lazy_until ''</result>'' (drop (length op) s) else None)" for s
    by (simp only: match_at_def op)
  ultimately have "match_at (c # a @ op @ rest) = None" by (simp only: if_False)
  moreover have "\<not> sublist op (a @ butlast op)"
    using Cons.prems by (auto simp: sublist_Cons_right)
  ultimately show ?case using Cons.IH by simp
qed

lemma match_result_first:
  assumes "match_at (''<result>'' @ rest) = Some cap" and "\<not> sublist ''<result>'' (a @ ''<result'')"
  shows "match_result (a @ ''<result>'' @ rest) = Some cap"
proof -
  have b: "butlast ''<result>'' = ''<result''" by simp
  show ?thesis using match_result_first_gen[OF refl assms(1)] assms(2) unfolding b by blast
qed

lemma match_result_span:
  assumes "\<not> sublist ''<result>'' (a @ ''<result'')" and "\<not> sublist ''</result>'' (cap @ ''</result'')"
  shows "match_result (a @ ''<result>'' @ cap @ ''</result>'' @ z) = Some cap"
proof -
  have "lazy_until ''</result>'' (cap @ ''</result>'' @ z) = Some cap"
    using assms(2) by (intro lazy_until_first) auto
  then have "match_at (''<result>'' @ cap @ ''</result>'' @ z) = Some cap"
    by (simp add: match_at_def)
  then show ?thesis using assms(1) by (rule match_result_first)
qed

lemma response_text_first:
  assumes "\<forall>b' \<in> set pre. btype b' \<noteq> ''text''" and "btype b = ''text''" and "btext b = Some t"
  shows "response_text (pre @ b # post) = t"
proof -
  have "find (\<lambda>b. btype b = ''text'') (pre @ b # post) = Some b"
    using assms(1,2) by (induction pre) auto
  then show ?thesis using assms(3) by (simp add: response_text_def)
qed

subsection \<open>What the registration loop hands to the registry\<close>









subsection \<open>A target without an identifier\<close>

lemma bundleSchema_noid:
  assumes f: "files w p = Some content"
      and pa: "json_parse x content = Some doc" and i: "get_id doc = Inr v" and n: "\<not> truthy v"
  shows "(\<exists>e. fst (bundleSchema x p w) = Inl e)
       \<and> extends_by registration_event w (snd (bundleSchema x p w))
       \<and> same_disk w (snd (bundleSchema x p w))
       \<and> (dirs w (dirname p) \<noteq> None \<longrightarrow> fst (bundleSchema x p w) = Inl (MissingId p))"
proof -
  obtain r w1 where reg: "registerAllSchemas x p w = (r, w1)"
    by (cases "registerAllSchemas x p w")
  from registerAllSchemas_ext[of w x p] reg
  have e1: "extends_by registration_event w w1" and sd: "same_disk w w1" by simp_all
  then have f1: "files w1 p = Some content" using f by (simp add: same_disk_def)
  show ?thesis
  proof (cases r)
    case (Inl e)
    then have "bundleSchema x p w = (Inl e, w1)" using reg by (simp add: bundleSchema_def)
    moreover have "dirs w (dirname p) = None"
      using reg Inl by (auto simp: registerAllSchemas_def readdirSync_def Let_def split: option.splits)
    ultimately show ?thesis using e1 sd by simp
  next
    case (Inr u)
    have "bundleSchema x p w = (Inl (MissingId p), emit (ReadFile p) w1)"
      using reg Inr f1 pa i n by (cases v) (auto simp: bundleSchema_def readFileSync_def)
    then show ?thesis using e1 sd by (simp add: extends_by_emit)
  qed
qed

lemma processSchema_noid:
  assumes f: "files w (input config) = Some content" and o: "output_path config \<noteq> input config"
      and pa: "json_parse x content = Some doc" and i: "get_id doc = Inr v" and n: "\<not> truthy v"
  shows "(\<exists>e. fst (processSchema x config w) = Inl e)
       \<and> extends_by (\<lambda>e. generation_event e \<or> registration_event e \<or> (\<exists>q c. e = WriteFile q c))
            w (snd (processSchema x config w))
       \<and> (\<forall>t w1. generateTypes x config (emit (Log ''--- Processing'' [input config]) w) = (Inr t, w1)
              \<and> dirs w (dirname (output_path config)) \<noteq> None
              \<and> dirs w (dirname (input config)) \<noteq> None
            \<longrightarrow> fst (processSchema x config w) = Inl (MissingId (input config)))"
proof -
  let ?K = "\<lambda>e. generation_event e \<or> registration_event e \<or> (\<exists>q c. e = WriteFile q c)"
  let ?start = "emit (Log ''--- Processing'' [input config]) w"
  obtain g w1 where g: "generateTypes x config ?start = (g, w1)"
    by (cases "generateTypes x config ?start")
  from generateTypes_ext[of ?start x config] g
  have eg: "extends_by generation_event ?start w1" and sd: "same_disk w w1" by simp_all
  have "extends_by ?K w ?start" by (simp add: extends_by_def)
  moreover have "extends_by ?K ?start w1" using eg by (rule extends_by_mono) simp
  ultimately have e1: "extends_by ?K w w1" by (rule extends_by_trans)
  show ?thesis
  proof (cases g)
    case (Inl e)
    then have "processSchema x config w = (Inl e, w1)" using g by (simp add: processSchema_def)
    then show ?thesis using e1 g Inl by simp
  next
    case (Inr t)
    show ?thesis
    proof (cases "dirs w1 (dirname (output_path config))")
      case None
      then have "processSchema x config w =
          (Inl (FsError (output_path config)), emit (WriteFile (output_path config) t) w1)"
        using g Inr by (simp add: processSchema_def writeFileSync_def)
      moreover have "dirs w (dirname (output_path config)) = None"
        using None sd by (simp add: same_disk_def)
      ultimately show ?thesis using e1 by (simp add: extends_by_emit)
    next
      case (Some entries)
      define w2 where "w2 = snd (writeFileSync (output_path config) t w1)"
      have wr: "writeFileSync (output_path config) t w1 = (Inr (), w2)"
        and f2: "files w2 = (files w1)(output_path config \<mapsto> t)"
        and tr2: "trace w2 = trace w1 @ [WriteFile (output_path config) t]"
        and d2: "\<forall>d. dirs w1 d \<noteq> None \<longrightarrow> dirs w2 d \<noteq> None"
        using Some by (simp_all add: w2_def writeFileSync_def Let_def)
      let ?mid = "emit (Log ''  Bundling schema...'' [])
                    (emit (Log ''  Written types to'' [output_path config]) w2)"
      have e2: "extends_by ?K w1 ?mid" using tr2 by (simp add: extends_by_def)
      have fm: "files ?mid (input config) = Some content"
        using f2 f o sd by (simp add: same_disk_def)
      note b = bundleSchema_noid[OF fm pa i n]
      from b obtain e w3 where bs: "bundleSchema x (input config) ?mid = (Inl e, w3)"
        by (cases "bundleSchema x (input config) ?mid") auto
      then have be: "fst (bundleSchema x (input config) ?mid) = Inl e"
        and w3: "snd (bundleSchema x (input config) ?mid) = w3" by simp_all
      have ps: "processSchema x config w = (Inl e, w3)"
        using g Inr wr bs by (simp add: processSchema_def)
      from b have "extends_by ?K ?mid w3" unfolding w3
        by (auto intro: extends_by_mono)
      with e1 e2 have e3: "extends_by ?K w w3"
        by (blast intro: extends_by_trans)
      have "dirs w (dirname (input config)) \<noteq> None \<longrightarrow> e = MissingId (input config)"
      proof
        assume "dirs w (dirname (input config)) \<noteq> None"
        then have "dirs ?mid (dirname (input config)) \<noteq> None"
          using d2 sd by (simp add: same_disk_def)
        with b be show "e = MissingId (input config)" by simp
      qed
      then show ?thesis using ps e3 by simp
    qed
  qed
qed

subsection \<open>What the registry takes, and the way to the bundler\<close>






subsection \<open>Evaluations in the small world\<close>

lemma demo_valid: "fst (validateEnv (demo_world all_set d m)) = None"
  by (simp add: validateEnv_def demo_world_def all_set_def required_def)

lemma ev_nochange: "changedFiles [] = []"
  by code_simp

lemma ev_lines: "split_on (CHR 0x0A) (trim model_delta) = [''schema/model.json'', ''schema/model.bundled.json'']"
  by code_simp

lemma ev_changed: "changedFiles model_delta = [''schema/model.json'']"
  by code_simp

lemma ev_schemas: "changedSchemas [''schema/model.json''] = [model_config]"
  by (simp add: changedSchemas_def SCHEMAS_def model_config_def)

lemma ev_dirname: "dirname ''schema/model.json'' = ''schema''" by code_simp

lemma ev_last: "last (split_on CHR ''/'' ''schema/model.json'') = ''model.json''" by code_simp

lemma ev_dirname_out: "dirname ''types/model.d.ts'' = ''types''" by code_simp

lemma ev_last_out: "last (split_on CHR ''/'' ''types/model.d.ts'') = ''model.d.ts''" by code_simp

lemma ev_join_model: "join [''schema'', ''model.json''] = ''schema/model.json''" by code_simp

lemma ev_join_broken: "join [''schema'', ''broken.json''] = ''schema/broken.json''" by code_simp

lemma ev_sf: "is_schema_file ''model.json''" "is_schema_file ''broken.json''"
  "\<not> is_schema_file ''model.bundled.json''" "\<not> is_schema_file ''README.md''"
  by code_simp+

lemma ev_prompt: "replace_first ''Clean up: <d.ts></d.ts>'' ''<d.ts></d.ts>''
     (''<d.ts>'' @ [CHR 0x0A] @ ''export interface Model {}'' @ [CHR 0x0A] @ ''</d.ts>'') = demo_prompt" by code_simp

lemma ev_nospan: "match_result (response_text [text_block ''no span'']) = None" by code_simp

lemma demo_files: "files (demo_world v d m) ''.github/scripts/prompts/model.prompt.txt'' = Some ''Clean up: <d.ts></d.ts>''"
  "files (demo_world v d m) ''schema/model.json'' = Some m"
  "files (demo_world v d m) ''schema/broken.json'' = Some ''{''"
  "dirs (demo_world v d m) ''schema'' = Some [''model.json'', ''broken.json'', ''model.bundled.json'', ''README.md'']"
  "dirs (demo_world v d m) ''types'' = Some []"
  "git_diff (demo_world v d m) = d" "env (demo_world v d m) = v" "trace (demo_world v d m) = []"
  by (simp_all add: demo_world_def)

lemma demo_generate:
  assumes "files w ''.github/scripts/prompts/model.prompt.txt'' = Some ''Clean up: <d.ts></d.ts>''"
  shows "generateTypes (demo_ext r) model_config w =
     (let w4 = emit (Generate demo_prompt (Inr r))
                (emit (ReadFile ''.github/scripts/prompts/model.prompt.txt'')
                (emit (Log ''  Sending to Claude for cleanup...'' [])
                (emit (Json2ts ''schema'' ''model.json'')
                (emit (Log ''  Converting to TypeScript...'' []) w))))
      in case match_result (response_text r) of
           None \<Rightarrow> (Inl NoResult, emit (Log ''No <result> tag found in Claude's response'' []) w4)
         | Some cap \<Rightarrow> (Inr (trim cap @ [CHR 0x0A]), emit (Format (trim cap)) w4))"
  using ev_prompt assms
  by (simp add: generateTypes_def Let_def model_config_def ev_dirname ev_last demo_ext_def readFileSync_def
       split: option.splits)

lemma demo_process_nospan:
  assumes "files w ''.github/scripts/prompts/model.prompt.txt'' = Some ''Clean up: <d.ts></d.ts>''"
  shows "processSchema (demo_ext [text_block ''no span'']) model_config w =
     (Inl NoResult, emit (Log ''No <result> tag found in Claude's response'' [])
                (emit (Generate demo_prompt (Inr [text_block ''no span'']))
                (emit (ReadFile ''.github/scripts/prompts/model.prompt.txt'')
                (emit (Log ''  Sending to Claude for cleanup...'' [])
                (emit (Json2ts ''schema'' ''model.json'')
                (emit (Log ''  Converting to TypeScript...'' []) 
                (emit (Log ''--- Processing'' [''schema/model.json'']) w)))))))"
  using assms by (simp add: processSchema_def demo_generate ev_nospan Let_def) (simp add: model_config_def)

lemma demo_detect:
  "detectChangedSchemas (demo_world v (Inr model_delta) m) =
     (Inr [model_config],
      emit (Log ''Found schema(s) to process:'' [''schema/model.json''])
        (emit (Log ''Changed files:'' [''schema/model.json''])
           (emit GitDiff (emit (Log ''Detecting changed schema files...'' []) (demo_world v (Inr model_delta) m)))))"
  by (simp add: detectChangedSchemas_def Let_def demo_files ev_changed ev_schemas) (simp add: model_config_def)

lemma demo_upload_raw:
  assumes "dirs w ''schema'' = Some [''model.json'', ''broken.json'', ''model.bundled.json'', ''README.md'']"
      and "files w ''schema/model.json'' = Some m" and "files w ''schema/broken.json'' = Some b"
  shows "fst (uploadRawSchemas (demo_ext r) w) = Inr ()"
  using assms
  by (simp add: uploadRawSchemas_def readdirSync_def Let_def ev_sf ev_join_model ev_join_broken
        readFileSync_def uploadToR2_def demo_ext_def)

lemma ev_span: "match_result (response_text demo_reply) = Some '' export interface Model {} ''"
  by code_simp

lemma ev_trim: "trim '' export interface Model {} '' = ''export interface Model {}''"
  by code_simp

lemma ev_parse: "demo_parse ''{}'' = Some (JObj [])" "demo_parse ''{'' = None"
  "demo_parse model_text = Some (JObj [(''$id'', JStr ''urn:model'')])"
  by code_simp+

lemma demo_generate_ok:
  assumes "files w ''.github/scripts/prompts/model.prompt.txt'' = Some ''Clean up: <d.ts></d.ts>''"
  shows "generateTypes (demo_ext demo_reply) model_config w =
     (Inr (''export interface Model {}'' @ [CHR 0x0A]),
      emit (Format ''export interface Model {}'')
        (emit (Generate demo_prompt (Inr demo_reply))
           (emit (ReadFile ''.github/scripts/prompts/model.prompt.txt'')
              (emit (Log ''  Sending to Claude for cleanup...'' [])
                 (emit (Json2ts ''schema'' ''model.json'')
                    (emit (Log ''  Converting to TypeScript...'' []) w))))))"
  using assms by (simp add: demo_generate ev_span ev_trim Let_def)

lemma demo_bundle_noid:
  assumes "dirs w ''schema'' = Some [''model.json'', ''broken.json'', ''model.bundled.json'', ''README.md'']"
      and "files w ''schema/model.json'' = Some ''{}''" and "files w ''schema/broken.json'' = Some ''{''"
  shows "bundleSchema (demo_ext r) ''schema/model.json'' w =
     (Inl (MissingId ''schema/model.json''),
      emit (ReadFile ''schema/model.json'')
       (emit (ReadFile ''schema/broken.json'')
         (emit (ReadFile ''schema/model.json'')
           (emit (ReadDir ''schema'') w))))"
  using assms
  by (simp add: bundleSchema_def registerAllSchemas_def readdirSync_def Let_def ev_dirname ev_sf
        ev_join_model ev_join_broken register_file_def readFileSync_def demo_ext_def ev_parse)

lemma mc_fields: "input model_config = ''schema/model.json''"
  "output_path model_config = ''types/model.d.ts''"
  "promptFile model_config = ''.github/scripts/prompts/model.prompt.txt''"
  "bundled (r2Keys model_config) = ''schema-bundle/model.bundled.json''"
  by (simp_all add: model_config_def)

lemma demo_process_noid:
  "fst (processSchema (demo_ext demo_reply) model_config (demo_world all_set (Inr model_delta) ''{}'')) =
    Inl (MissingId ''schema/model.json'')"
  "new_events (demo_world all_set (Inr model_delta) ''{}'')
     (snd (processSchema (demo_ext demo_reply) model_config (demo_world all_set (Inr model_delta) ''{}''))) =
    [Log ''--- Processing'' [''schema/model.json''],
     Log ''  Converting to TypeScript...'' [],
     Json2ts ''schema'' ''model.json'',
     Log ''  Sending to Claude for cleanup...'' [],
     ReadFile ''.github/scripts/prompts/model.prompt.txt'',
     Generate demo_prompt (Inr demo_reply),
     Format ''export interface Model {}'',
     WriteFile ''types/model.d.ts'' (''export interface Model {}'' @ [CHR 0x0A]),
     Log ''  Written types to'' [''types/model.d.ts''],
     Log ''  Bundling schema...'' [],
     ReadDir ''schema'',
     ReadFile ''schema/model.json'',
     ReadFile ''schema/broken.json'',
     ReadFile ''schema/model.json'']"
  by (simp_all add: processSchema_def demo_generate_ok demo_files mc_fields writeFileSync_def
        ev_dirname_out ev_last_out Let_def demo_bundle_noid new_events_def)

lemma ev_no_earlier: "\<not> includes_str (''Here it is: '' @ ''<result'') ''<result>''"
  "\<not> includes_str ('' export interface Model {} '' @ ''</result'') ''</result>''"
  by code_simp+





subsection \<open>What the Change Detector returns\<close>

text \<open>
  C7. Whenever the version-control query answers, the Change Detector returns (and does not
  fail, also when nothing is selected) exactly the descriptors of the table, in the table's
  order, whose input path is in the filtered list; a line of the answer is in that list if
  and only if it is not empty, ends in \<^verbatim>\<open>.json\<close> and does not contain \<^verbatim>\<open>bundle\<close>.
\<close>

theorem detect_returns_registered_changed:
  assumes "git_diff w = Inr out"
  shows "fst (detectChangedSchemas w) =
           Inr (filter (\<lambda>schema. input schema \<in> set (changedFiles out)) SCHEMAS)
       \<and> (\<forall>f. f \<in> set (changedFiles out) \<longleftrightarrow>
                f \<in> set (split_on (CHR 0x0A) (trim out)) \<and> f \<noteq> [] \<and> suffix ''.json'' f
                \<and> \<not> sublist ''bundle'' f)"
  using assms
  by (auto simp: detectChangedSchemas_def changedSchemas_def changedFiles_def Let_def
        endsWith_suffix includes_sublist)

theorem detect_returns_registered_changed_witness:
  "fst (detectChangedSchemas (demo_world all_set (Inr model_delta) model_text)) = Inr [model_config]
   \<and> ''schema/model.json'' \<in> set (changedFiles model_delta)
   \<and> ''schema/model.bundled.json'' \<notin> set (changedFiles model_delta)
   \<and> sublist ''bundle'' ''schema/model.bundled.json''"
proof -
  have g: "git_diff (demo_world all_set (Inr model_delta) model_text) = Inr model_delta"
    by (simp add: demo_world_def)
  have s: "filter (\<lambda>schema. input schema = ''schema/model.json'') SCHEMAS = [model_config]"
    by (simp add: SCHEMAS_def model_config_def)
  have a: "fst (detectChangedSchemas (demo_world all_set (Inr model_delta) model_text)) = Inr [model_config]"
    using conjunct1 [OF detect_returns_registered_changed [OF g]] by (simp add: ev_changed s)
  have b: "includes_str ''schema/model.bundled.json'' ''bundle''"
    by code_simp
  show ?thesis using a b by (simp add: ev_changed includes_sublist)
qed

subsection \<open>The order of the run\<close>

text \<open>
  C2. If one of the five required environment values is unset (or empty), the run ends
  with exit code 1 and all it did was print which value is missing: the version-control
  query was not made, and no call went over the network.
\<close>

theorem validation_precedes_detection:
  assumes "v \<in> set required" and "env w v = None \<or> env w v = Some []"
  shows "fst (main x w) = 1
       \<and> (\<exists>u \<in> set required. new_events w (snd (main x w)) =
             [Log ''Error: Missing required environment variable:'' [u]])
       \<and> (\<forall>e \<in> set (new_events w (snd (main x w))). e \<noteq> GitDiff \<and> \<not> network_call e)"
proof -
  from validate_each_fail [OF assms] obtain u where u: "u \<in> set required"
    "validateEnv w = (Some 1, emit (Log ''Error: Missing required environment variable:'' [u]) w)"
    by (auto simp: validateEnv_def)
  then show ?thesis by (auto simp: main_def new_events_def)
qed

theorem validation_precedes_detection_witness:
  "fst (main (demo_ext []) (demo_world (all_set(''R2_BUCKET_NAME'' := None)) (Inr model_delta) model_text)) = 1
   \<and> GitDiff \<notin> set (new_events (demo_world (all_set(''R2_BUCKET_NAME'' := None)) (Inr model_delta) model_text)
        (snd (main (demo_ext []) (demo_world (all_set(''R2_BUCKET_NAME'' := None)) (Inr model_delta) model_text))))"
proof -
  have r: "''R2_BUCKET_NAME'' \<in> set required" by (simp add: required_def)
  have e: "env (demo_world (all_set(''R2_BUCKET_NAME'' := None)) (Inr model_delta) model_text) ''R2_BUCKET_NAME'' = None
         \<or> env (demo_world (all_set(''R2_BUCKET_NAME'' := None)) (Inr model_delta) model_text) ''R2_BUCKET_NAME'' = Some []"
    by (simp add: demo_world_def)
  from validation_precedes_detection [OF r e, of "demo_ext []"] show ?thesis by auto
qed

text \<open>
  C1. In a run that gets as far as computing the changed-file set (the environment is
  valid and the version-control query answers) and finds it empty, nothing is put to the
  object store, no call goes over the network, and the exit code is 0.
\<close>

theorem no_changes_no_publish:
  assumes "fst (validateEnv w) = None" and "git_diff w = Inr out" and "changedFiles out = []"
  shows "fst (main x w) = 0
       \<and> puts_of (new_events w (snd (main x w))) = []
       \<and> (\<forall>e \<in> set (new_events w (snd (main x w))). \<not> network_call e)"
proof -
  have "validateEnv w = (None, w)" using assms(1) by (rule validateEnv_pass)
  then show ?thesis using assms(2,3)
    by (simp add: main_def detectChangedSchemas_def changedSchemas_def Let_def new_events_def)
qed

theorem no_changes_no_publish_witness:
  "fst (main (demo_ext []) (demo_world all_set (Inr []) model_text)) = 0
   \<and> puts_of (new_events (demo_world all_set (Inr []) model_text)
        (snd (main (demo_ext []) (demo_world all_set (Inr []) model_text)))) = []"
proof -
  have g: "git_diff (demo_world all_set (Inr []) model_text) = Inr []"
    by (simp add: demo_world_def)
  from no_changes_no_publish [OF demo_valid g ev_nochange, of "demo_ext []"] show ?thesis by simp
qed

subsection \<open>A response without the delimited result\<close>

text \<open>
  C3. If the text-generation service answered the request made for a schema, and the
  first text block of the answer has no \<^verbatim>\<open><result>...</result>\<close> span, then
  processing that schema fails with the generation error, no file was written (the
  files on disk are those of before), and the loop of the run ends there with exit code 1,
  whatever descriptors were still to come.
\<close>

theorem missing_result_span_fails_run:
  assumes gen: "Generate p (Inr content) \<in> set (new_events w (snd (processSchema x schema w)))"
      and nospan: "match_result (response_text content) = None"
  shows "fst (processSchema x schema w) = Inl NoResult
       \<and> files (snd (processSchema x schema w)) = files w
       \<and> (\<forall>e \<in> set (new_events w (snd (processSchema x schema w))). \<forall>q c. e \<noteq> WriteFile q c)
       \<and> process_each x (schema # rest) w =
           (Some 1, emit (Failed (input schema) NoResult) (snd (processSchema x schema w)))"
proof -
  let ?w0 = "emit (Log ''--- Processing'' [input schema]) w"
  obtain g w1 where g: "generateTypes x schema ?w0 = (g, w1)"
    by (cases "generateTypes x schema ?w0")
  from generateTypes_ext[of ?w0 x schema] g
  have ext: "extends_by generation_event ?w0 w1" and disk: "same_disk ?w0 w1" by simp_all
  then obtain es where es: "trace w1 = trace w @ Log ''--- Processing'' [input schema] # es"
      "list_all generation_event es"
    by (auto simp: extends_by_def)
  have es_new: "new_events ?w0 w1 = es" using es by (simp add: new_events_def)
  have reply: "Generate p (Inr content) \<in> set es \<Longrightarrow> g = Inl NoResult"
    using generateTypes_reply[of p "Inr content" ?w0 x schema] g es_new nospan by simp
  show ?thesis
  proof (cases g)
    case (Inl e)
    then have ps: "processSchema x schema w = (Inl e, w1)" using g by (simp add: processSchema_def)
    then have "new_events w (snd (processSchema x schema w)) = Log ''--- Processing'' [input schema] # es"
      using es by (simp add: new_events_def)
    with gen reply Inl have "e = NoResult" by auto
    then show ?thesis using ps es disk
      by (auto simp: new_events_def same_disk_def list_all_iff)
  next
    case (Inr t)
    with g processSchema_after_generate[of x schema w t w1]
    obtain es' where es': "trace (snd (processSchema x schema w)) = trace w1 @ WriteFile (output_path schema) t # es'"
      "list_all (\<lambda>e. bundling_event e \<or> upload_event e) es'" by auto
    then have "new_events w (snd (processSchema x schema w)) =
        Log ''--- Processing'' [input schema] # es @ WriteFile (output_path schema) t # es'"
      using es by (simp add: new_events_def)
    with gen es'(2) have "Generate p (Inr content) \<in> set es"
      by (auto simp: list_all_iff)
    with reply Inr show ?thesis by simp
  qed
qed

theorem missing_result_span_fails_run_witness:
  "fst (processSchema (demo_ext [text_block ''no span'']) model_config (demo_world all_set (Inr model_delta) model_text)) = Inl NoResult
   \<and> fst (process_each (demo_ext [text_block ''no span'']) [model_config, model_config] (demo_world all_set (Inr model_delta) model_text)) = Some 1
   \<and> match_result (response_text [text_block ''no span'']) = None"
proof -
  let ?w = "demo_world all_set (Inr model_delta) model_text"
  let ?x = "demo_ext [text_block ''no span'']"
  have g: "Generate demo_prompt (Inr [text_block ''no span'']) \<in> set (new_events ?w (snd (processSchema ?x model_config ?w)))"
    by (simp add: demo_process_nospan demo_files new_events_def)
  from missing_result_span_fails_run [OF g ev_nospan, of "[model_config]"] ev_nospan show ?thesis by simp
qed

subsection \<open>A failing schema ends the run\<close>

text \<open>
  C5. In a run that reached the loop, let the descriptors before the i-th have been
  processed, and let processing the i-th throw. Then the run ends with exit code 1, and
  the last thing it did was print the failure with that descriptor's input path: the
  world it leaves is the one the failed processing left, plus that line. The i-th
  descriptor is not tried again and none of the later ones is processed.
\<close>

theorem failure_ends_run:
  assumes v: "fst (validateEnv w) = None"
      and d: "detectChangedSchemas w = (Inr (pre @ schema # rest), w2)"
      and u: "uploadRawSchemas x w2 = (Inr (), w3)"
      and p: "process_each x pre w3 = (None, w4)"
      and f: "processSchema x schema w4 = (Inl e, w5)"
  shows "main x w = (1, emit (Failed (input schema) e) w5)"
proof -
  have "process_each x (pre @ schema # rest) w3 = (Some 1, emit (Failed (input schema) e) w5)"
    using process_each_append[of x pre w3 "schema # rest"] p f by simp
  then show ?thesis using validateEnv_pass[OF v] d u by (simp add: main_def)
qed

theorem failure_ends_run_witness:
  "main (demo_ext [text_block ''no span'']) (demo_world all_set (Inr model_delta) model_text) =
    (1, emit (Failed ''schema/model.json'' NoResult)
          (snd (processSchema (demo_ext [text_block ''no span'']) model_config
             (snd (uploadRawSchemas (demo_ext [text_block ''no span''])
                (snd (detectChangedSchemas (demo_world all_set (Inr model_delta) model_text))))))))"
proof -
  let ?x = "demo_ext [text_block ''no span'']"
  let ?w = "demo_world all_set (Inr model_delta) model_text"
  let ?w2 = "snd (detectChangedSchemas ?w)"
  let ?w3 = "snd (uploadRawSchemas ?x ?w2)"
  have d: "detectChangedSchemas ?w = (Inr ([] @ model_config # []), ?w2)" by (simp add: demo_detect)
  have "fst (uploadRawSchemas ?x ?w2) = Inr ()"
    by (rule demo_upload_raw) (simp_all add: demo_detect demo_files)
  then have u: "uploadRawSchemas ?x ?w2 = (Inr (), ?w3)"
    by (simp add: prod_eq_iff)
  have p: "process_each ?x [] ?w3 = (None, ?w3)" by simp
  have sd: "same_disk ?w ?w3"
    using detectChangedSchemas_ext[of ?w] uploadRawSchemas_ext[of ?w2 ?x]
    by (auto intro: same_disk_trans)
  then have "files ?w3 ''.github/scripts/prompts/model.prompt.txt'' = Some ''Clean up: <d.ts></d.ts>''"
    by (simp add: same_disk_def demo_files)
  then have f: "processSchema ?x model_config ?w3 = (Inl NoResult, snd (processSchema ?x model_config ?w3))"
    by (simp add: demo_process_nospan)
  from failure_ends_run [OF demo_valid d u p f] show ?thesis by (simp add: model_config_def)
qed

subsection \<open>The raw upload\<close>

text \<open>
  C6. In a run with at least one changed schema whose raw upload ran to its end, the
  requests put to the object store by the raw upload are, in the order of the listing,
  one for every entry of the directory \<^verbatim>\<open>schema\<close> that ends in \<^verbatim>\<open>.json\<close> and does not
  contain \<^verbatim>\<open>bundle\<close>: the key is the file name, the body the file's content, the
  content type \<^verbatim>\<open>application/json\<close>. Which schemas changed plays no part. These
  requests are part of the transcript of the whole run.
\<close>

theorem raw_upload_publishes_all:
  assumes v: "fst (validateEnv w) = None"
      and d: "detectChangedSchemas w = (Inr changed, w2)" and ne: "changed \<noteq> []"
      and l: "dirs w ''schema'' = Some entries"
      and u: "uploadRawSchemas x w2 = (Inr (), w3)"
  shows "puts_of (new_events w2 w3) =
           map (\<lambda>file. \<lparr>Bucket = env w ''R2_BUCKET_NAME'', Key = file,
                          Body = the (files w (join [''schema'', file])),
                          ContentType = ''application/json'', CacheControl = CACHE_CONTROL\<rparr>)
             (filter is_schema_file entries)
       \<and> (\<forall>file \<in> set (filter is_schema_file entries). files w (join [''schema'', file]) \<noteq> None)
       \<and> prefix (trace w3) (trace (snd (main x w)))"
proof -
  from detectChangedSchemas_ext[of w] d have sd: "same_disk w w2" by simp
  then have l2: "dirs w2 ''schema'' = Some entries" and same: "files w2 = files w" "env w2 = env w"
    using l by (simp_all add: same_disk_def)
  from u have ok: "fst (uploadRawSchemas x w2) = Inr ()" and w3: "snd (uploadRawSchemas x w2) = w3"
    by simp_all
  have m: "snd (main x w) = snd (case process_each x changed w3 of
                            (Some code, w4) \<Rightarrow> (code, w4)
                          | (None, w4) \<Rightarrow>
                              (0, emit (Log ''  Types will be uploaded to R2 by sync-types workflow'' [])
                                    (emit (Log ''  Types will be committed by the workflow'' [])
                                       (emit (Log ''All changed schemas processed successfully'' [])
                                          w4))))"
    using validateEnv_pass[OF v] d ne u by (simp add: main_def)
  have "prefix (trace w3) (trace (snd (main x w)))"
    using process_each_prefix[of w3 x changed] unfolding m
    by (cases "process_each x changed w3") (auto simp: prefix_def split: option.splits)
  with uploadRawSchemas_puts[OF l2 ok] show ?thesis by (simp add: w3 same)
qed

theorem raw_upload_publishes_all_witness:
  "map Key (puts_of (new_events (snd (detectChangedSchemas (demo_world all_set (Inr model_delta) model_text)))
      (snd (uploadRawSchemas (demo_ext []) (snd (detectChangedSchemas (demo_world all_set (Inr model_delta) model_text)))))))
    = [''model.json'', ''broken.json'']"
proof -
  let ?w = "demo_world all_set (Inr model_delta) model_text"
  let ?w2 = "snd (detectChangedSchemas ?w)"
  let ?w3 = "snd (uploadRawSchemas (demo_ext []) ?w2)"
  have d: "detectChangedSchemas ?w = (Inr [model_config], ?w2)" by (simp add: demo_detect)
  have ne: "[model_config] \<noteq> []" by simp
  have l: "dirs ?w ''schema'' = Some [''model.json'', ''broken.json'', ''model.bundled.json'', ''README.md'']"
    by (simp add: demo_files)
  have "fst (uploadRawSchemas (demo_ext []) ?w2) = Inr ()"
    by (rule demo_upload_raw) (simp_all add: demo_detect demo_files)
  then have u: "uploadRawSchemas (demo_ext []) ?w2 = (Inr (), ?w3)"
    by (simp add: prod_eq_iff)
  from raw_upload_publishes_all [OF demo_valid d ne l u] show ?thesis
    by (simp add: ev_sf)
qed

subsection \<open>A schema without an identifier\<close>

text \<open>
  C4, as the code has it. Let the schema of a descriptor be readable, parse to anything
  but \<^verbatim>\<open>null\<close> and have no truthy \<^verbatim>\<open>$id\<close>, and let the declaration be written
  elsewhere than over the schema (as for every descriptor of the table). Then processing
  that schema fails, and apart from the request to the text-generation service no call
  that can reach the network is made for it: the transcript of \<^verbatim>\<open>processSchema\<close> has
  no call of the bundler and no put. When generation succeeded and the directories of
  the output path and of the schema exist, the failure is the error that names the
  missing identifier. Bundling itself, started in any world where the schema is that
  document and its directory can be listed, fails with that error without any call that
  can reach the network.
\<close>

theorem missing_id_never_reaches_bundler:
  assumes f: "files w (input config) = Some content" and o: "output_path config \<noteq> input config"
      and pa: "json_parse x content = Some doc" and i: "get_id doc = Inr v" and n: "\<not> truthy v"
  shows "fst (processSchema x config w) \<noteq> Inr ()
       \<and> (\<forall>e \<in> set (new_events w (snd (processSchema x config w))).
             (\<forall>j. e \<noteq> Bundle j) \<and> (\<forall>c. e \<noteq> Put c))
       \<and> (\<forall>t w1. generateTypes x config (emit (Log ''--- Processing'' [input config]) w) = (Inr t, w1)
              \<and> dirs w (dirname (output_path config)) \<noteq> None
              \<and> dirs w (dirname (input config)) \<noteq> None
            \<longrightarrow> fst (processSchema x config w) = Inl (MissingId (input config)))
       \<and> (\<forall>w'. files w' (input config) = Some content \<and> dirs w' (dirname (input config)) \<noteq> None
            \<longrightarrow> fst (bundleSchema x (input config) w') = Inl (MissingId (input config))
              \<and> (\<forall>e \<in> set (new_events w' (snd (bundleSchema x (input config) w'))).
                    \<not> network_call e))"
proof -
  note ps = processSchema_noid[OF f o pa i n]
  have a: "fst (processSchema x config w) \<noteq> Inr ()" using ps by auto
  from ps have "list_all (\<lambda>e. generation_event e \<or> registration_event e \<or> (\<exists>q c. e = WriteFile q c))
      (new_events w (snd (processSchema x config w)))"
    by (blast intro: extends_by_new)
  then have b: "\<forall>e \<in> set (new_events w (snd (processSchema x config w))).
             (\<forall>j. e \<noteq> Bundle j) \<and> (\<forall>c. e \<noteq> Put c)"
    by (auto simp: list_all_iff)
  have d: "\<forall>w'. files w' (input config) = Some content \<and> dirs w' (dirname (input config)) \<noteq> None
            \<longrightarrow> fst (bundleSchema x (input config) w') = Inl (MissingId (input config))
              \<and> (\<forall>e \<in> set (new_events w' (snd (bundleSchema x (input config) w'))).
                    \<not> network_call e)"
  proof (intro allI impI)
    fix w' :: world
    assume h: "files w' (input config) = Some content \<and> dirs w' (dirname (input config)) \<noteq> None"
    then have fw: "files w' (input config) = Some content" by simp
    note bb = bundleSchema_noid[OF fw pa i n]
    from bb have "list_all registration_event (new_events w' (snd (bundleSchema x (input config) w')))"
      by (blast intro: extends_by_new)
    moreover have "registration_event e \<Longrightarrow> \<not> network_call e" for e by (cases e) auto
    ultimately have "\<forall>e \<in> set (new_events w' (snd (bundleSchema x (input config) w'))). \<not> network_call e"
      by (auto simp: list_all_iff)
    with bb h show "fst (bundleSchema x (input config) w') = Inl (MissingId (input config))
              \<and> (\<forall>e \<in> set (new_events w' (snd (bundleSchema x (input config) w'))).
                    \<not> network_call e)" by blast
  qed
  from a b ps d show ?thesis by blast
qed

theorem missing_id_never_reaches_bundler_witness:
  "fst (processSchema (demo_ext demo_reply) model_config (demo_world all_set (Inr model_delta) ''{}''))
     = Inl (MissingId ''schema/model.json'')
   \<and> fst (bundleSchema (demo_ext demo_reply) ''schema/model.json''
            (demo_world all_set (Inr model_delta) ''{}'')) = Inl (MissingId ''schema/model.json'')"
proof -
  let ?v = "demo_world all_set (Inr model_delta) ''{}''"
  let ?x = "demo_ext demo_reply"
  let ?start = "emit (Log ''--- Processing'' [input model_config]) ?v"
  have f: "files ?v (input model_config) = Some ''{}''" by (simp add: mc_fields demo_files)
  have o: "output_path model_config \<noteq> input model_config" by (simp add: mc_fields)
  have pa: "json_parse ?x ''{}'' = Some (JObj [])" by (simp add: demo_ext_def ev_parse)
  have i: "get_id (JObj []) = Inr None" by simp
  have n: "\<not> truthy None" by simp
  have "fst (generateTypes ?x model_config ?start) = Inr (''export interface Model {}'' @ [CHR 0x0A])"
    by (simp add: demo_generate_ok demo_files)
  then have g: "generateTypes ?x model_config ?start =
      (Inr (''export interface Model {}'' @ [CHR 0x0A]), snd (generateTypes ?x model_config ?start))"
    by (simp add: prod_eq_iff)
  have d1: "dirs ?v (dirname (output_path model_config)) \<noteq> None"
    by (simp add: mc_fields ev_dirname_out demo_files)
  have d2: "dirs ?v (dirname (input model_config)) \<noteq> None"
    by (simp add: mc_fields ev_dirname demo_files)
  note t = missing_id_never_reaches_bundler [OF f o pa i n]
  from t g d1 d2 have a: "fst (processSchema ?x model_config ?v) = Inl (MissingId (input model_config))"
    by blast
  from t f d2 have b: "fst (bundleSchema ?x (input model_config) ?v) = Inl (MissingId (input model_config))"
    by blast
  from a b show ?thesis by (simp add: mc_fields)
qed

text \<open>
  The run that refutes C4 as written: the schema on disk is \<^verbatim>\<open>{}\<close>, processing it
  fails with the missing-identifier error, and the request to the text-generation service
  for this schema is in the transcript of that processing.
\<close>

theorem generation_precedes_missing_id:
  "fst (processSchema (demo_ext demo_reply) model_config (demo_world all_set (Inr model_delta) ''{}''))
     = Inl (MissingId ''schema/model.json'')
   \<and> Generate demo_prompt (Inr demo_reply) \<in>
       set (new_events (demo_world all_set (Inr model_delta) ''{}'')
             (snd (processSchema (demo_ext demo_reply) model_config
                    (demo_world all_set (Inr model_delta) ''{}''))))
   \<and> network_call (Generate demo_prompt (Inr demo_reply))"
  by (simp add: demo_process_noid)

subsection \<open>The declaration is written before bundling\<close>

text \<open>
  C9. When generation succeeds for a schema and the directory of its output path exists,
  the declaration is on disk at the output path when \<^verbatim>\<open>processSchema\<close> ends, however
  it ends, so also when bundling or the upload of the bundle failed. The write comes
  before bundling: no directory scan, registration, bundler call or put precedes it in
  the transcript, and the line that announces bundling follows it.
\<close>

theorem declaration_written_before_bundling:
  assumes g: "generateTypes x config (emit (Log ''--- Processing'' [input config]) w) = (Inr t, w1)"
      and d: "dirs w (dirname (output_path config)) \<noteq> None"
  shows "files (snd (processSchema x config w)) (output_path config) = Some t
       \<and> (\<exists>before rest.
             new_events w (snd (processSchema x config w)) =
               before @ [WriteFile (output_path config) t,
                         Log ''  Written types to'' [output_path config],
                         Log ''  Bundling schema...'' []] @ rest
           \<and> (\<forall>e \<in> set before. (\<forall>dir. e \<noteq> ReadDir dir) \<and> (\<forall>doc r. e \<noteq> Register doc r)
                   \<and> (\<forall>i. e \<noteq> Bundle i) \<and> (\<forall>c. e \<noteq> Put c)))"
proof -
  let ?w0 = "emit (Log ''--- Processing'' [input config]) w"
  from generateTypes_ext[of ?w0 x config] g
  obtain es where es: "trace w1 = trace w @ Log ''--- Processing'' [input config] # es"
      "list_all generation_event es" and sd: "dirs w1 = dirs w"
    by (auto simp: extends_by_def same_disk_def)
  from d sd obtain entries where d1: "dirs w1 (dirname (output_path config)) = Some entries"
    by auto
  from processSchema_after_write[OF g d1]
  obtain rest where f: "files (snd (processSchema x config w)) = (files w1)(output_path config \<mapsto> t)"
    and tr: "trace (snd (processSchema x config w)) =
              trace w1 @ [WriteFile (output_path config) t, Log ''  Written types to'' [output_path config],
                          Log ''  Bundling schema...'' []] @ rest"
    by auto
  have ne: "new_events w (snd (processSchema x config w)) =
      (Log ''--- Processing'' [input config] # es) @ [WriteFile (output_path config) t,
          Log ''  Written types to'' [output_path config], Log ''  Bundling schema...'' []] @ rest"
    using tr es by (simp add: new_events_def)
  have b: "\<forall>e \<in> set (Log ''--- Processing'' [input config] # es).
        (\<forall>dir. e \<noteq> ReadDir dir) \<and> (\<forall>doc r. e \<noteq> Register doc r) \<and> (\<forall>i. e \<noteq> Bundle i) \<and> (\<forall>c. e \<noteq> Put c)"
    using es(2) by (auto simp: list_all_iff)
  from f ne b show ?thesis by (metis fun_upd_same)
qed

theorem declaration_written_before_bundling_witness:
  "files (snd (processSchema (demo_ext demo_reply) model_config (demo_world all_set (Inr model_delta) ''{}'')))
      ''types/model.d.ts'' = Some (''export interface Model {}'' @ [CHR 0x0A])
   \<and> fst (processSchema (demo_ext demo_reply) model_config (demo_world all_set (Inr model_delta) ''{}''))
      = Inl (MissingId ''schema/model.json'')
   \<and> files (demo_world all_set (Inr model_delta) ''{}'') ''types/model.d.ts'' = None"
proof -
  let ?w = "demo_world all_set (Inr model_delta) ''{}''"
  let ?start = "emit (Log ''--- Processing'' [input model_config]) ?w"
  have "fst (generateTypes (demo_ext demo_reply) model_config ?start) = Inr (''export interface Model {}'' @ [CHR 0x0A])"
    by (simp add: demo_generate_ok demo_files)
  then have g: "generateTypes (demo_ext demo_reply) model_config ?start =
      (Inr (''export interface Model {}'' @ [CHR 0x0A]), snd (generateTypes (demo_ext demo_reply) model_config ?start))"
    by (simp add: prod_eq_iff)
  have d: "dirs ?w (dirname (output_path model_config)) \<noteq> None"
    by (simp add: mc_fields ev_dirname_out demo_files)
  from declaration_written_before_bundling [OF g d] demo_process_noid(1) show ?thesis
    by (simp add: mc_fields demo_world_def)
qed

subsection \<open>Registration of the siblings\<close>




subsection \<open>What is taken from a response\<close>

text \<open>
  C10. Let the service's answer be any blocks that are not of text kind, then a text
  block, then any blocks at all; let the text be anything, the opening tag at its first
  occurrence, a span, the closing tag at its first occurrence after the opening tag, and
  anything again. Then the span is what the search finds, \<^verbatim>\<open>generateTypes\<close> returns
  what the formatter makes of the trimmed span, and handing the trimmed span to the
  formatter is the last thing it does. Nothing else of the answer plays a part: not the
  text around the span, not further spans, not later blocks.
\<close>

theorem first_result_span_extracted:
  assumes blocks: "\<forall>b' \<in> set pre. btype b' \<noteq> ''text''" "btype b = ''text''"
            "btext b = Some (a @ ''<result>'' @ cap @ ''</result>'' @ z)"
      and first_open: "\<not> sublist ''<result>'' (a @ ''<result'')"
      and first_close: "\<not> sublist ''</result>'' (cap @ ''</result'')"
      and reply: "Generate p (Inr (pre @ b # post)) \<in> set (new_events w (snd (generateTypes x config w)))"
  shows "match_result (response_text (pre @ b # post)) = Some cap
       \<and> fst (generateTypes x config w) = prettier_format x (trim cap)
       \<and> last (new_events w (snd (generateTypes x config w))) = Format (trim cap)"
proof -
  have m: "match_result (response_text (pre @ b # post)) = Some cap"
    using response_text_first[OF blocks] match_result_span[OF first_open first_close] by simp
  from generateTypes_reply[OF reply] m show ?thesis by simp
qed

theorem first_result_span_extracted_witness:
  "fst (generateTypes (demo_ext demo_reply) model_config (demo_world all_set (Inr model_delta) model_text))
     = Inr (''export interface Model {}'' @ [CHR 0x0A])
   \<and> match_result (response_text demo_reply) = Some '' export interface Model {} ''"
proof -
  let ?v = "demo_world all_set (Inr model_delta) model_text"
  let ?b = "text_block ''Here it is: <result> export interface Model {} </result> or <result>x</result>''"
  have r: "demo_reply = [thinking_block] @ ?b # [text_block ''<result>y</result>'']"
    by (simp add: demo_reply_def)
  have b1: "\<forall>b' \<in> set [thinking_block]. btype b' \<noteq> ''text''" by (simp add: thinking_block_def)
  have b2: "btype ?b = ''text''" by (simp add: text_block_def)
  have b3: "btext ?b = Some (''Here it is: '' @ ''<result>'' @ '' export interface Model {} '' @ ''</result>'' @ '' or <result>x</result>'')"
    by (simp add: text_block_def)
  have o: "\<not> sublist ''<result>'' (''Here it is: '' @ ''<result'')"
    by (rule ev_no_earlier(1)[unfolded includes_sublist])
  have c: "\<not> sublist ''</result>'' ('' export interface Model {} '' @ ''</result'')"
    by (rule ev_no_earlier(2)[unfolded includes_sublist])
  have g: "Generate demo_prompt (Inr ([thinking_block] @ ?b # [text_block ''<result>y</result>'']))
             \<in> set (new_events ?v (snd (generateTypes (demo_ext demo_reply) model_config ?v)))"
    unfolding r[symmetric] by (simp add: demo_generate_ok demo_files new_events_def)
  from first_result_span_extracted [OF b1 b2 b3 o c g] show ?thesis
    unfolding r[symmetric] by (simp add: demo_ext_def ev_trim)
qed

end
